theory Spec2Isabelle
  imports Complex_Main "HOL-Library.Word" "HOL-Library.Monad_Syntax"
begin

section \<open>JavaScript numbers and typed arrays\<close>

text \<open>
  A JavaScript number that carries a measurement is a real, or one of the three special
  values. \<open>NaN\<close> arises in the source from \<open>0 / 0\<close> and from arithmetic on
  \<^verbatim>\<open>undefined\<close> (a read past the end of an array). A \<^verbatim>\<open>Uint8Array\<close> is a
  list of bytes; reading an element gives its unsigned value.
\<close>

datatype jsnum = Num real | NaN | PosInfinity | NegInfinity

text \<open>\<^verbatim>\<open>x > c\<close> for a finite literal \<open>c\<close>: false on \<open>NaN\<close>.\<close>

fun js_gt :: "jsnum \<Rightarrow> real \<Rightarrow> bool" where
  "js_gt (Num x) c = (x > c)"
| "js_gt NaN c = False"
| "js_gt PosInfinity c = True"
| "js_gt NegInfinity c = False"

type_synonym byte = "8 word"

definition byteval :: "byte \<Rightarrow> real" where
  "byteval b = real_of_int (uint b)"

text \<open>
  \<^verbatim>\<open>a / b\<close> where \<open>a\<close> is a non-negative finite number and \<open>b\<close> an integer
  count: \<open>0 / 0\<close> is \<open>NaN\<close>, a positive numerator over \<open>0\<close> is \<open>Infinity\<close>.
\<close>

definition js_div :: "real \<Rightarrow> int \<Rightarrow> jsnum" where
  "js_div a b =
     (if b = 0 then (if a = 0 then NaN else if a > 0 then PosInfinity else NegInfinity)
      else Num (a / real_of_int b))"

text \<open>\<^verbatim>\<open>Math.sqrt\<close> on the values the source passes to it (never negative).\<close>

fun js_sqrt :: "jsnum \<Rightarrow> jsnum" where
  "js_sqrt (Num x) = (if x < 0 then NaN else Num (sqrt x))"
| "js_sqrt NaN = NaN"
| "js_sqrt PosInfinity = PosInfinity"
| "js_sqrt NegInfinity = NaN"

section \<open>Feature extraction (EnhancedAudioProcessor)\<close>

record features =
  spectralCentroid :: jsnum
  spectralRolloff :: jsnum
  spectralFlux :: jsnum
  rms :: jsnum
  zeroCrossingRate :: jsnum
  energy :: jsnum
  timestamp :: nat

definition calculateSpectralCentroid :: "byte list \<Rightarrow> jsnum" where
  "calculateSpectralCentroid frequencyData =
     (let weightedSum = foldl (\<lambda>acc (i, v). acc + real i * byteval v) 0
                          (zip [0..<length frequencyData] frequencyData);
          sum = foldl (\<lambda>acc v. acc + byteval v) 0 frequencyData
      in if sum > 0 then Num (weightedSum / sum) else Num 0)"

text \<open>The loop of \<^verbatim>\<open>calculateSpectralRolloff\<close> from index \<open>i\<close> on.\<close>

fun rolloffFrom :: "real \<Rightarrow> nat \<Rightarrow> real \<Rightarrow> nat \<Rightarrow> byte list \<Rightarrow> jsnum" where
  "rolloffFrom totalSum n cumulativeSum i [] = Num 1"
| "rolloffFrom totalSum n cumulativeSum i (v # rest) =
     (let cumulativeSum = cumulativeSum + byteval v
      in if cumulativeSum \<ge> 0.85 * totalSum then Num (real i / real n)
         else rolloffFrom totalSum n cumulativeSum (Suc i) rest)"

definition calculateSpectralRolloff :: "byte list \<Rightarrow> jsnum" where
  "calculateSpectralRolloff frequencyData =
     (let totalSum = foldl (\<lambda>sum val. sum + byteval val) 0 frequencyData
      in rolloffFrom totalSum (length frequencyData) 0 0 frequencyData)"

text \<open>
  \<^verbatim>\<open>calculateSpectralFlux\<close>: \<^verbatim>\<open>null\<close> previous data returns 0 at once. A previous
  array shorter than the current one is read past its end, which makes the sum \<open>NaN\<close>.
\<close>

definition calculateSpectralFlux :: "byte list \<Rightarrow> byte list option \<Rightarrow> jsnum" where
  "calculateSpectralFlux currentData previousData =
     (case previousData of
        None \<Rightarrow> Num 0
      | Some prev \<Rightarrow>
          if length prev < length currentData then NaN
          else js_sqrt (Num (foldl (\<lambda>flux (c, p). flux + (byteval c - byteval p) * (byteval c - byteval p))
                               0 (zip currentData prev))))"

definition calculateRMS :: "byte list \<Rightarrow> jsnum" where
  "calculateRMS timeData =
     (let sum = foldl (\<lambda>sum b. sum + ((byteval b - 128) / 128) * ((byteval b - 128) / 128))
                  0 timeData
      in js_sqrt (js_div sum (int (length timeData))))"

text \<open>
  The loop of \<^verbatim>\<open>calculateZeroCrossingRate\<close> compares each sample with the one before
  it, starting at index 1.
\<close>

fun countCrossings :: "byte list \<Rightarrow> nat" where
  "countCrossings (p # c # rest) =
     (let current = uint c - 128; previous = uint p - 128
      in (if (current \<ge> 0 \<and> previous < 0) \<or> (current < 0 \<and> previous \<ge> 0) then 1 else 0)
         + countCrossings (c # rest))"
| "countCrossings [p] = 0"
| "countCrossings [] = 0"

definition calculateZeroCrossingRate :: "byte list \<Rightarrow> jsnum" where
  "calculateZeroCrossingRate timeData =
     js_div (real (countCrossings timeData)) (int (length timeData) - 1)"

definition calculateEnergy :: "byte list \<Rightarrow> jsnum" where
  "calculateEnergy frequencyData =
     (let energy = foldl (\<lambda>energy v. energy + byteval v * byteval v) 0 frequencyData
      in js_div energy (int (length frequencyData)))"

text \<open>
  \<^verbatim>\<open>extractRealTimeFeatures\<close> reads and replaces the one-frame lookback
  \<^verbatim>\<open>this.lastFrequencyData\<close> (\<^verbatim>\<open>null\<close> after construction); \<open>now\<close> is
  \<^verbatim>\<open>Date.now()\<close>. It returns the features and the new lookback.
\<close>

definition extractRealTimeFeatures ::
  "byte list \<Rightarrow> byte list \<Rightarrow> nat \<Rightarrow> byte list option \<Rightarrow> features \<times> byte list option" where
  "extractRealTimeFeatures frequencyData timeData now lastFrequencyData =
     (\<lparr>spectralCentroid = calculateSpectralCentroid frequencyData,
       spectralRolloff = calculateSpectralRolloff frequencyData,
       spectralFlux = calculateSpectralFlux frequencyData lastFrequencyData,
       rms = calculateRMS timeData,
       zeroCrossingRate = calculateZeroCrossingRate timeData,
       energy = calculateEnergy frequencyData,
       timestamp = now\<rparr>,
      Some frequencyData)"

section \<open>Risk scoring (calculateRealTimeRisk, the popup's updateRiskScore)\<close>

record persuasionCues =
  detected :: bool
  urgency :: bool
  authority :: bool
  socialProof :: bool
  reciprocity :: bool
  commitment :: bool
  liking :: bool
  cueConfidence :: real
  cueTimestamp :: nat

text \<open>One conditional increment of the source: \<^verbatim>\<open>if (c) riskScore += w\<close>.\<close>

definition addIf :: "bool \<Rightarrow> int \<Rightarrow> int \<Rightarrow> int" where
  "addIf c w riskScore = (if c then riskScore + w else riskScore)"

definition calculateRealTimeRisk :: "features \<Rightarrow> persuasionCues \<Rightarrow> int" where
  "calculateRealTimeRisk f p =
     (let riskScore = 0;
          riskScore = addIf (js_gt (spectralFlux f) 50) 15 riskScore;
          riskScore = addIf (js_gt (rms f) 0.8) 10 riskScore;
          riskScore = addIf (js_gt (zeroCrossingRate f) 0.3) 10 riskScore;
          riskScore = addIf (urgency p) 25 riskScore;
          riskScore = addIf (authority p) 20 riskScore;
          riskScore = addIf (socialProof p) 15 riskScore;
          riskScore = addIf (reciprocity p) 15 riskScore;
          riskScore = addIf (commitment p) 10 riskScore;
          riskScore = addIf (liking p) 10 riskScore
      in min 100 riskScore)"

text \<open>
  The popup's \<^verbatim>\<open>updateRiskScore\<close>: the level text and the CSS class it assigns to a
  score.
\<close>

definition updateRiskScore :: "int \<Rightarrow> string \<times> string" where
  "updateRiskScore score =
     (if score \<ge> 80 then (''CRITICAL'', ''risk-critical'')
      else if score \<ge> 60 then (''HIGH'', ''risk-high'')
      else if score \<ge> 30 then (''MEDIUM'', ''risk-medium'')
      else (''LOW'', ''risk-low''))"

text \<open>The weight a true condition contributes, \<open>0\<close> for a false one.\<close>

definition contrib :: "bool \<Rightarrow> int \<Rightarrow> int" where
  "contrib c w = (if c then w else 0)"

section \<open>Call detection (analyzeCallCharacteristics)\<close>

record callCharacteristics =
  isCall :: bool
  confidence :: real
  participantCount :: int

text \<open>The local variables of the sampling closure.\<close>

record sampler =
  samples :: nat
  totalEnergy :: int
  varianceCount :: nat
  lastEnergy :: int

definition newSampler :: sampler where
  "newSampler = \<lparr>samples = 0, totalEnergy = 0, varianceCount = 0, lastEnergy = 0\<rparr>"

definition frameEnergy :: "byte list \<Rightarrow> int" where
  "frameEnergy dataArray = foldl (\<lambda>sum val. sum + uint val) 0 dataArray"

text \<open>
  The decision taken once the window is full, from the closure's \<^verbatim>\<open>totalEnergy\<close>,
  \<^verbatim>\<open>varianceCount\<close> and \<^verbatim>\<open>samples\<close>.
\<close>

definition resolveCall :: "int \<Rightarrow> nat \<Rightarrow> nat \<Rightarrow> callCharacteristics" where
  "resolveCall tot cnt n =
     (let avgEnergy = real_of_int tot / real n;
          varianceRatio = real cnt / real n;
          isCall = (avgEnergy > 50 \<and> varianceRatio > 0.3);
          confidence = (if isCall then min 0.9 (0.5 + (varianceRatio * 0.4)) else 0.1);
          participantCount = (if isCall then max 2 \<lfloor>avgEnergy / 30\<rfloor> else 1)
      in \<lparr>isCall = isCall, confidence = confidence, participantCount = participantCount\<rparr>)"

text \<open>
  One firing of the 100 ms interval on the frequency data the analyser delivers: the
  updated locals, and the resolved value once 30 samples are in.
\<close>

definition sampleTick :: "byte list \<Rightarrow> sampler \<Rightarrow> sampler \<times> callCharacteristics option" where
  "sampleTick dataArray s =
     (let energy = frameEnergy dataArray;
          totalEnergy = totalEnergy s + energy;
          varianceCount = (if samples s > 0 \<and> \<bar>energy - lastEnergy s\<bar> > 100
                           then varianceCount s + 1 else varianceCount s);
          lastEnergy = energy;
          samples = samples s + 1;
          s' = \<lparr>samples = samples, totalEnergy = totalEnergy, varianceCount = varianceCount,
                lastEnergy = lastEnergy\<rparr>
      in if samples \<ge> 30 then (s', Some (resolveCall totalEnergy varianceCount samples))
         else (s', None))"

text \<open>
  The promise over the frames of successive ticks: resolved at the tick that completes
  the window, pending (\<open>None\<close>) while fewer frames have arrived.
\<close>

fun analyzeFrom :: "sampler \<Rightarrow> byte list list \<Rightarrow> callCharacteristics option" where
  "analyzeFrom s [] = None"
| "analyzeFrom s (dataArray # later) =
     (case sampleTick dataArray s of
        (s', Some r) \<Rightarrow> Some r
      | (s', None) \<Rightarrow> analyzeFrom s' later)"

definition analyzeCallCharacteristics :: "byte list list \<Rightarrow> callCharacteristics option" where
  "analyzeCallCharacteristics frames = analyzeFrom newSampler frames"

text \<open>
  What the window measures: the energies of its 30 frames, their average, and the
  fraction of samples whose energy differs from the previous sample's by more than 100.
\<close>

fun jumps :: "int list \<Rightarrow> nat" where
  "jumps (a # b # rest) = (if \<bar>b - a\<bar> > 100 then 1 else 0) + jumps (b # rest)"
| "jumps [a] = 0"
| "jumps [] = 0"

definition windowEnergies :: "byte list list \<Rightarrow> int list" where
  "windowEnergies frames = map frameEnergy (take 30 frames)"

definition avgEnergy :: "byte list list \<Rightarrow> real" where
  "avgEnergy frames = real_of_int (sum_list (windowEnergies frames)) / 30"

definition varianceRatio :: "byte list list \<Rightarrow> real" where
  "varianceRatio frames = real (jumps (windowEnergies frames)) / 30"

section \<open>Bulk capture (startCallRecording, stop)\<close>

text \<open>
  The processor's recording fields, and beside them the platform objects they refer to:
  every \<^verbatim>\<open>MediaRecorder\<close> created so far with its \<^verbatim>\<open>state\<close>, addressed by
  its position, and the number of pending 60 s timeouts.
\<close>

datatype recorderState = inactive | recording | paused

datatype mediaError = NotAllowedError | NotFoundError

record processor =
  mediaRecorder :: "nat option"
  isRecording :: bool
  recorders :: "recorderState list"
  stopTimeouts :: nat

definition newProcessor :: processor where
  "newProcessor = \<lparr>mediaRecorder = None, isRecording = False, recorders = [], stopTimeouts = 0\<rparr>"

text \<open>
  \<^verbatim>\<open>startCallRecording\<close>. \<open>getUserMedia\<close> is the outcome of the microphone
  request: \<open>Some e\<close> when the platform rejects it, and then the \<^verbatim>\<open>catch\<close> logs and
  rethrows \<open>e\<close>. Otherwise a new recorder is created, stored in
  \<^verbatim>\<open>this.mediaRecorder\<close>, started, a 60 s timeout is set, and the recorder is returned.
\<close>

definition startCallRecording :: "mediaError option \<Rightarrow> processor \<Rightarrow> (mediaError + nat) \<times> processor" where
  "startCallRecording getUserMedia p =
     (case getUserMedia of
        Some e \<Rightarrow> (Inl e, p)
      | None \<Rightarrow>
          (let r = length (recorders p);
               p = p\<lparr>recorders := recorders p @ [inactive], mediaRecorder := Some r\<rparr>;
               p = p\<lparr>recorders := (recorders p)[r := recording]\<rparr>;
               p = p\<lparr>stopTimeouts := stopTimeouts p + 1\<rparr>
           in (Inr r, p)))"

text \<open>
  What the 60 s timeout and \<^verbatim>\<open>stop\<close> both do to the recorder: stop the one
  \<^verbatim>\<open>this.mediaRecorder\<close> refers to now, if it is recording.
\<close>

definition stopCurrentRecorder :: "processor \<Rightarrow> processor" where
  "stopCurrentRecorder p =
     (case mediaRecorder p of
        None \<Rightarrow> p
      | Some r \<Rightarrow>
          if r < length (recorders p) \<and> recorders p ! r = recording
          then p\<lparr>recorders := (recorders p)[r := inactive]\<rparr> else p)"

definition stopTimeoutFires :: "processor \<Rightarrow> processor" where
  "stopTimeoutFires p = stopCurrentRecorder (p\<lparr>stopTimeouts := stopTimeouts p - 1\<rparr>)"

definition stop :: "processor \<Rightarrow> processor" where
  "stop p = stopCurrentRecorder (p\<lparr>isRecording := False\<rparr>)"

text \<open>The captures active in a state: the recorders whose state is \<^verbatim>\<open>recording\<close>.\<close>

definition activeCaptures :: "processor \<Rightarrow> nat" where
  "activeCaptures p = length (filter (\<lambda>st. st = recording) (recorders p))"

section \<open>Container encoding (audioBufferToWav)\<close>

subsection \<open>The DataView over a zero-filled ArrayBuffer\<close>

text \<open>
  A write of \<open>bs\<close> at \<open>offset\<close> replaces the bytes there; a write that does not fit
  raises \<^verbatim>\<open>RangeError\<close> (\<open>None\<close>).
\<close>

definition writeBytes :: "nat \<Rightarrow> byte list \<Rightarrow> byte list \<Rightarrow> byte list option" where
  "writeBytes offset bs view =
     (if offset + length bs \<le> length view
      then Some (take offset view @ bs @ drop (offset + length bs) view)
      else None)"

definition setUint8 :: "nat \<Rightarrow> nat \<Rightarrow> byte list \<Rightarrow> byte list option" where
  "setUint8 offset v view = writeBytes offset [of_nat (v mod 256)] view"

text \<open>The bytes of an unsigned value, reduced modulo the field's width, in either byte order.\<close>

definition uint16Bytes :: "nat \<Rightarrow> bool \<Rightarrow> byte list" where
  "uint16Bytes v littleEndian =
     (let n = v mod 65536;
          b0 = of_nat (n mod 256); b1 = of_nat (n div 256)
      in if littleEndian then [b0, b1] else [b1, b0])"

definition uint32Bytes :: "nat \<Rightarrow> bool \<Rightarrow> byte list" where
  "uint32Bytes v littleEndian =
     (let n = v mod 4294967296;
          b0 = of_nat (n mod 256); b1 = of_nat (n div 256 mod 256);
          b2 = of_nat (n div 65536 mod 256); b3 = of_nat (n div 16777216)
      in if littleEndian then [b0, b1, b2, b3] else [b3, b2, b1, b0])"

definition setUint16 :: "nat \<Rightarrow> nat \<Rightarrow> bool \<Rightarrow> byte list \<Rightarrow> byte list option" where
  "setUint16 offset v littleEndian view = writeBytes offset (uint16Bytes v littleEndian) view"

definition setUint32 :: "nat \<Rightarrow> nat \<Rightarrow> bool \<Rightarrow> byte list \<Rightarrow> byte list option" where
  "setUint32 offset v littleEndian view = writeBytes offset (uint32Bytes v littleEndian) view"

text \<open>
  The integer \<^verbatim>\<open>setInt16\<close> stores for a number: \<open>NaN\<close> and the infinities become
  0, any other value is truncated towards zero and taken modulo \<open>2^16\<close>, which is the
  unsigned reading of its two's complement.
\<close>

definition js_trunc :: "real \<Rightarrow> int" where
  "js_trunc x = (if x < 0 then \<lceil>x\<rceil> else \<lfloor>x\<rfloor>)"

fun toUint16 :: "jsnum \<Rightarrow> nat" where
  "toUint16 (Num x) = nat (js_trunc x mod 65536)"
| "toUint16 NaN = 0"
| "toUint16 PosInfinity = 0"
| "toUint16 NegInfinity = 0"

definition setInt16 :: "nat \<Rightarrow> jsnum \<Rightarrow> bool \<Rightarrow> byte list \<Rightarrow> byte list option" where
  "setInt16 offset v littleEndian view = setUint16 offset (toUint16 v) littleEndian view"

text \<open>The readers of the same view, as a decoder of the container uses them.\<close>

definition getUint16 :: "nat \<Rightarrow> bool \<Rightarrow> byte list \<Rightarrow> nat option" where
  "getUint16 offset littleEndian view =
     (if offset + 2 \<le> length view
      then (let x = unat (view ! offset); y = unat (view ! (offset + 1))
            in Some (if littleEndian then x + 256 * y else y + 256 * x))
      else None)"

definition getInt16 :: "nat \<Rightarrow> bool \<Rightarrow> byte list \<Rightarrow> int option" where
  "getInt16 offset littleEndian view =
     map_option (\<lambda>u. if u \<ge> 32768 then int u - 65536 else int u)
       (getUint16 offset littleEndian view)"

definition getUint32 :: "nat \<Rightarrow> bool \<Rightarrow> byte list \<Rightarrow> nat option" where
  "getUint32 offset littleEndian view =
     (if offset + 4 \<le> length view
      then (let a = unat (view ! offset); b = unat (view ! (offset + 1));
                c = unat (view ! (offset + 2)); d = unat (view ! (offset + 3))
            in Some (if littleEndian then a + 256 * b + 65536 * c + 16777216 * d
                     else d + 256 * c + 65536 * b + 16777216 * a))
      else None)"

subsection \<open>The encoder\<close>

text \<open>
  An \<^verbatim>\<open>AudioBuffer\<close>: its frame count (\<^verbatim>\<open>buffer.length\<close>), channel count, sample
  rate, and one sample array per channel. A well-formed buffer has exactly
  \<^verbatim>\<open>numberOfChannels\<close> channels of \<^verbatim>\<open>length\<close> samples each.
\<close>

record audioBuffer =
  frameCount :: nat
  numberOfChannels :: nat
  sampleRate :: nat
  channelData :: "real list list"

definition wellFormed :: "audioBuffer \<Rightarrow> bool" where
  "wellFormed b \<longleftrightarrow>
     length (channelData b) = numberOfChannels b
     \<and> list_all (\<lambda>c. length c = frameCount b) (channelData b)"

text \<open>
  \<^verbatim>\<open>buffer.getChannelData(channel)[i]\<close>; a read past the end is \<^verbatim>\<open>undefined\<close>, which
  \<^verbatim>\<open>Math.min\<close> turns into \<open>NaN\<close>.
\<close>

definition getChannelSample :: "audioBuffer \<Rightarrow> nat \<Rightarrow> nat \<Rightarrow> jsnum" where
  "getChannelSample b channel i =
     (if channel < length (channelData b) \<and> i < length (channelData b ! channel)
      then Num (channelData b ! channel ! i) else NaN)"

text \<open>\<^verbatim>\<open>Math.max(-1, Math.min(1, x))\<close>.\<close>

fun clampSample :: "jsnum \<Rightarrow> jsnum" where
  "clampSample (Num x) = Num (max (- 1) (min 1 x))"
| "clampSample NaN = NaN"
| "clampSample PosInfinity = Num 1"
| "clampSample NegInfinity = Num (- 1)"

text \<open>\<^verbatim>\<open>sample < 0 ? sample * 0x8000 : sample * 0x7FFF\<close>, on a clamped sample.\<close>

fun scaleSample :: "jsnum \<Rightarrow> jsnum" where
  "scaleSample (Num x) = Num (if x < 0 then x * 32768 else x * 32767)"
| "scaleSample NaN = NaN"
| "scaleSample PosInfinity = PosInfinity"
| "scaleSample NegInfinity = NegInfinity"

text \<open>\<^verbatim>\<open>writeString\<close>: one \<^verbatim>\<open>setUint8\<close> per character, at consecutive offsets.\<close>

fun writeString :: "nat \<Rightarrow> string \<Rightarrow> byte list \<Rightarrow> byte list option" where
  "writeString offset [] view = Some view"
| "writeString offset (c # cs) view =
     (case setUint8 offset (of_char c) view of
        None \<Rightarrow> None
      | Some view \<Rightarrow> writeString (Suc offset) cs view)"

text \<open>The inner loop over the channels of frame \<open>i\<close>, on the view and the offset.\<close>

fun writeChannels :: "audioBuffer \<Rightarrow> nat \<Rightarrow> nat list \<Rightarrow> byte list \<times> nat \<Rightarrow> (byte list \<times> nat) option" where
  "writeChannels b i [] (view, offset) = Some (view, offset)"
| "writeChannels b i (channel # rest) (view, offset) =
     (let sample = clampSample (getChannelSample b channel i)
      in case setInt16 offset (scaleSample sample) True view of
           None \<Rightarrow> None
         | Some view \<Rightarrow> writeChannels b i rest (view, offset + 2))"

text \<open>The outer loop over the frames.\<close>

fun writeFrames :: "audioBuffer \<Rightarrow> nat list \<Rightarrow> byte list \<times> nat \<Rightarrow> (byte list \<times> nat) option" where
  "writeFrames b [] st = Some st"
| "writeFrames b (i # later) st =
     (case writeChannels b i [0..<numberOfChannels b] st of
        None \<Rightarrow> None
      | Some st \<Rightarrow> writeFrames b later st)"

definition audioBufferToWav :: "audioBuffer \<Rightarrow> byte list option" where
  "audioBufferToWav buffer =
     (let len = frameCount buffer;
          numberOfChannels = numberOfChannels buffer;
          sampleRate = sampleRate buffer;
          view = replicate (44 + len * numberOfChannels * 2) (0 :: byte)
      in do {
           view \<leftarrow> writeString 0 ''RIFF'' view;
           view \<leftarrow> setUint32 4 (36 + len * numberOfChannels * 2) True view;
           view \<leftarrow> writeString 8 ''WAVE'' view;
           view \<leftarrow> writeString 12 ''fmt '' view;
           view \<leftarrow> setUint32 16 16 True view;
           view \<leftarrow> setUint16 20 1 True view;
           view \<leftarrow> setUint16 22 numberOfChannels True view;
           view \<leftarrow> setUint32 24 sampleRate True view;
           view \<leftarrow> setUint32 28 (sampleRate * numberOfChannels * 2) True view;
           view \<leftarrow> setUint16 32 (numberOfChannels * 2) True view;
           view \<leftarrow> setUint16 34 16 True view;
           view \<leftarrow> writeString 36 ''data'' view;
           view \<leftarrow> setUint32 40 (len * numberOfChannels * 2) True view;
           (view, offset) \<leftarrow> writeFrames buffer [0..<len] (view, 44);
           Some view
         })"

subsection \<open>The layout the encoder produces\<close>

definition stringBytes :: "string \<Rightarrow> byte list" where
  "stringBytes str = map (\<lambda>c. of_nat (of_char c mod 256)) str"

definition sampleBytes :: "audioBuffer \<Rightarrow> nat \<Rightarrow> nat \<Rightarrow> byte list" where
  "sampleBytes b i channel =
     uint16Bytes (toUint16 (scaleSample (clampSample (getChannelSample b channel i)))) True"

definition frameBytes :: "audioBuffer \<Rightarrow> nat \<Rightarrow> byte list" where
  "frameBytes b i = concat (map (sampleBytes b i) [0..<numberOfChannels b])"

definition wavData :: "audioBuffer \<Rightarrow> byte list" where
  "wavData b = concat (map (frameBytes b) [0..<frameCount b])"

definition wavHeader :: "audioBuffer \<Rightarrow> byte list" where
  "wavHeader b =
     stringBytes ''RIFF''
     @ uint32Bytes (36 + frameCount b * numberOfChannels b * 2) True
     @ stringBytes ''WAVE''
     @ stringBytes ''fmt ''
     @ uint32Bytes 16 True
     @ uint16Bytes 1 True
     @ uint16Bytes (numberOfChannels b) True
     @ uint32Bytes (sampleRate b) True
     @ uint32Bytes (sampleRate b * numberOfChannels b * 2) True
     @ uint16Bytes (numberOfChannels b * 2) True
     @ uint16Bytes 16 True
     @ stringBytes ''data''
     @ uint32Bytes (frameCount b * numberOfChannels b * 2) True"

subsection \<open>Reading the container back\<close>

text \<open>
  The 16-bit value the encoder stores for a sample, and the sample a 16-bit value
  stands for under the encoder's scaling.
\<close>

definition quantize :: "real \<Rightarrow> int" where
  "quantize x = js_trunc (if x < 0 then x * 32768 else x * 32767)"

definition dequantize :: "int \<Rightarrow> real" where
  "dequantize q = (if q < 0 then real_of_int q / 32768 else real_of_int q / 32767)"

text \<open>
  Modelled from the spec: the repository has no decoder of the container. This one
  reads it as the spec describes it, interleaved 16-bit little-endian PCM after a
  44-byte header: the sample of frame \<open>i\<close> and channel \<open>channel\<close>.
\<close>

definition decodeSample :: "nat \<Rightarrow> byte list \<Rightarrow> nat \<Rightarrow> nat \<Rightarrow> real option" where
  "decodeSample channels wav i channel =
     map_option dequantize (getInt16 (44 + 2 * (i * channels + channel)) True wav)"

section \<open>Session channel (CommunicationService)\<close>

subsection \<open>State\<close>

text \<open>
  The fields of the class, and beside them the platform objects they refer to: the
  \<^verbatim>\<open>readyState\<close> of every \<^verbatim>\<open>WebSocket\<close> the service has created, addressed by
  its position, the delays of the pending \<^verbatim>\<open>setTimeout\<close> callbacks, and a log of what
  the service did to the outside: console output, frames sent, timeouts set and messages
  forwarded to the extension runtime. The payload of a message is left out; its type,
  session id and timestamp are kept.
\<close>

datatype readyState = CONNECTING | OPEN | CLOSING | CLOSED

datatype messageType = session_start | audio_chunk | risk_score | session_end

record backendMessage =
  msgType :: messageType
  msgSessionId :: "string option"
  msgTimestamp :: nat

datatype effect =
    ConsoleLog string
  | ConsoleWarn string
  | ConsoleError string
  | SocketSend nat backendMessage
  | SetTimeout nat
  | RuntimeSendMessage string

record service =
  websocket :: "nat option"
  sessionId :: "string option"
  isConnected :: bool
  reconnectAttempts :: nat
  maxReconnectAttempts :: nat
  reconnectDelay :: nat
  sockets :: "readyState list"
  timers :: "nat list"
  log :: "effect list"

text \<open>An \<^verbatim>\<open>async\<close> method either returns or throws (its promise rejects).\<close>

datatype outcome = Returned | Threw string

subsection \<open>Construction\<close>

text \<open>The decimal digits of a number, as a template literal prints it.\<close>

fun showNat :: "nat \<Rightarrow> string" where
  "showNat n =
     (if n < 10 then [''0123456789'' ! n] else showNat (n div 10) @ [''0123456789'' ! (n mod 10)])"

text \<open>
  \<^verbatim>\<open>generateSessionId\<close>, from \<^verbatim>\<open>Date.now()\<close> and the base-36 suffix drawn from
  \<^verbatim>\<open>Math.random()\<close>.
\<close>

definition generateSessionId :: "nat \<Rightarrow> string \<Rightarrow> string" where
  "generateSessionId now rnd = ''ext_'' @ showNat now @ ''_'' @ rnd"

definition newService :: "nat \<Rightarrow> string \<Rightarrow> service" where
  "newService now rnd =
     \<lparr>websocket = None, sessionId = Some (generateSessionId now rnd), isConnected = False,
      reconnectAttempts = 0, maxReconnectAttempts = 5, reconnectDelay = 1000,
      sockets = [], timers = [], log = []\<rparr>"

subsection \<open>Methods\<close>

definition emit :: "effect \<Rightarrow> service \<Rightarrow> service" where
  "emit e s = s\<lparr>log := log s @ [e]\<rparr>"

text \<open>
  The channel is open when \<^verbatim>\<open>this.websocket\<close> is set and its \<^verbatim>\<open>readyState\<close> is
  \<^verbatim>\<open>WebSocket.OPEN\<close>; \<^verbatim>\<open>sendMessage\<close> sends only then.
\<close>

definition socketReady :: "service \<Rightarrow> bool" where
  "socketReady s =
     (case websocket s of
        None \<Rightarrow> False
      | Some w \<Rightarrow> w < length (sockets s) \<and> sockets s ! w = OPEN)"

definition sendMessage :: "backendMessage \<Rightarrow> service \<Rightarrow> service" where
  "sendMessage message s =
     (case websocket s of
        Some w \<Rightarrow>
          if w < length (sockets s) \<and> sockets s ! w = OPEN then emit (SocketSend w message) s
          else emit (ConsoleWarn ''WebSocket not ready, message not sent'') s
      | None \<Rightarrow> emit (ConsoleWarn ''WebSocket not ready, message not sent'') s)"

text \<open>
  \<^verbatim>\<open>connect\<close>, taken as one step. \<^verbatim>\<open>getConfig\<close> never throws; \<open>urlAccepted\<close>
  says whether \<^verbatim>\<open>new WebSocket(wsUrl)\<close> accepts the configured URL, and when it does
  not the \<^verbatim>\<open>catch\<close> logs and rethrows. The new socket starts in \<open>CONNECTING\<close> with
  the four handlers below attached.
\<close>

definition connect :: "bool \<Rightarrow> service \<Rightarrow> outcome \<times> service" where
  "connect urlAccepted s =
     (if urlAccepted
      then (Returned, s\<lparr>sockets := sockets s @ [CONNECTING], websocket := Some (length (sockets s))\<rparr>)
      else (Threw ''SyntaxError'', emit (ConsoleError ''Failed to connect to backend'') s))"

definition attemptReconnect :: "service \<Rightarrow> service" where
  "attemptReconnect s =
     (if reconnectAttempts s < maxReconnectAttempts s
      then (let s = s\<lparr>reconnectAttempts := reconnectAttempts s + 1\<rparr>;
                s = emit (ConsoleLog ''Attempting to reconnect'') s;
                s = emit (SetTimeout (reconnectDelay s * reconnectAttempts s)) s
            in s\<lparr>timers := timers s @ [reconnectDelay s * reconnectAttempts s]\<rparr>)
      else emit (ConsoleError ''Max reconnection attempts reached'') s)"

definition onopen :: "nat \<Rightarrow> service \<Rightarrow> service" where
  "onopen now s =
     (let s = emit (ConsoleLog ''WebSocket connected to backend'') s;
          s = s\<lparr>isConnected := True\<rparr>;
          s = s\<lparr>reconnectAttempts := 0\<rparr>
      in sendMessage \<lparr>msgType = session_start, msgSessionId = sessionId s, msgTimestamp = now\<rparr> s)"

definition onclose :: "service \<Rightarrow> service" where
  "onclose s =
     (let s = emit (ConsoleLog ''WebSocket disconnected'') s;
          s = s\<lparr>isConnected := False\<rparr>
      in attemptReconnect s)"

definition onerror :: "service \<Rightarrow> service" where
  "onerror s =
     (let s = emit (ConsoleError ''WebSocket error'') s
      in s\<lparr>isConnected := False\<rparr>)"

text \<open>
  \<^verbatim>\<open>onmessage\<close> on the type of the parsed message, \<open>None\<close> when \<^verbatim>\<open>JSON.parse\<close>
  throws.
\<close>

definition handleIncomingMessage :: "string \<Rightarrow> service \<Rightarrow> service" where
  "handleIncomingMessage ty s =
     (if ty = ''risk_alert'' then emit (RuntimeSendMessage ''risk_alert'') s
      else if ty = ''session_update'' then emit (RuntimeSendMessage ''session_update'') s
      else if ty = ''full_report_ready'' then emit (RuntimeSendMessage ''full_report_ready'') s
      else emit (ConsoleLog ''Unknown message type'') s)"

definition onmessage :: "string option \<Rightarrow> service \<Rightarrow> service" where
  "onmessage parsed s =
     (case parsed of
        Some ty \<Rightarrow> handleIncomingMessage ty s
      | None \<Rightarrow> emit (ConsoleError ''Failed to parse incoming message'') s)"

definition sendAudioChunk :: "nat \<Rightarrow> service \<Rightarrow> outcome \<times> service" where
  "sendAudioChunk now s =
     (if \<not> isConnected s \<or> websocket s = None then (Threw ''Not connected to backend'', s)
      else (Returned,
            sendMessage \<lparr>msgType = audio_chunk, msgSessionId = sessionId s, msgTimestamp = now\<rparr> s))"

definition sendRiskScore :: "nat \<Rightarrow> service \<Rightarrow> outcome \<times> service" where
  "sendRiskScore now s =
     (if \<not> isConnected s \<or> websocket s = None then (Threw ''Not connected to backend'', s)
      else (Returned,
            sendMessage \<lparr>msgType = risk_score, msgSessionId = sessionId s, msgTimestamp = now\<rparr> s))"

definition sendSessionEnd :: "nat \<Rightarrow> service \<Rightarrow> service" where
  "sendSessionEnd now s =
     (if isConnected s \<and> websocket s \<noteq> None
      then sendMessage \<lparr>msgType = session_end, msgSessionId = sessionId s, msgTimestamp = now\<rparr> s
      else s)"

text \<open>
  \<^verbatim>\<open>WebSocket.close()\<close>: a socket that is connecting or open starts closing (its close
  event comes later); on a closing or closed socket it does nothing.
\<close>

definition closeSocket :: "nat \<Rightarrow> readyState list \<Rightarrow> readyState list" where
  "closeSocket w socks =
     (if w < length socks \<and> (socks ! w = CONNECTING \<or> socks ! w = OPEN)
      then socks[w := CLOSING] else socks)"

definition disconnect :: "service \<Rightarrow> service" where
  "disconnect s =
     (let s = (case websocket s of
                 Some w \<Rightarrow> s\<lparr>sockets := closeSocket w (sockets s), websocket := None\<rparr>
               | None \<Rightarrow> s)
      in s\<lparr>isConnected := False\<rparr>)"

definition getSessionId :: "service \<Rightarrow> string option" where
  "getSessionId s = sessionId s"

definition isBackendConnected :: "service \<Rightarrow> bool" where
  "isBackendConnected s = isConnected s"

text \<open>
  The HTTP fallbacks post the session id and the payload; \<open>responseOk\<close> is
  \<^verbatim>\<open>response.ok\<close>.
\<close>

definition sendAudioChunkHTTP :: "bool \<Rightarrow> service \<Rightarrow> outcome \<times> service" where
  "sendAudioChunkHTTP responseOk s =
     (if responseOk then (Returned, s)
      else (Threw ''HTTP error'', emit (ConsoleError ''Failed to send audio chunk via HTTP'') s))"

definition sendRiskScoreHTTP :: "bool \<Rightarrow> service \<Rightarrow> outcome \<times> service" where
  "sendRiskScoreHTTP responseOk s =
     (if responseOk then (Returned, s)
      else (Threw ''HTTP error'', emit (ConsoleError ''Failed to send risk score via HTTP'') s))"

subsection \<open>Executions\<close>

text \<open>
  What can happen to a service: a caller invokes a method, a socket the service created
  fires an event, or a pending timeout fires and its callback calls \<^verbatim>\<open>connect\<close>.
\<close>

datatype event =
    Connect bool
  | Disconnect
  | SendAudioChunk nat
  | SendRiskScore nat
  | SendSessionEnd nat
  | SendAudioChunkHTTP bool
  | SendRiskScoreHTTP bool
  | SocketOpen nat nat
  | SocketMessage nat "string option"
  | SocketError nat
  | SocketClose nat
  | TimerFires nat bool

text \<open>
  The platform's side: a socket opens only while connecting, delivers messages only
  while open, fires error and close only before it is closed, and only a pending
  timeout fires.
\<close>

fun enabled :: "event \<Rightarrow> service \<Rightarrow> bool" where
  "enabled (SocketOpen w now) s = (w < length (sockets s) \<and> sockets s ! w = CONNECTING)"
| "enabled (SocketMessage w parsed) s = (w < length (sockets s) \<and> sockets s ! w = OPEN)"
| "enabled (SocketError w) s = (w < length (sockets s) \<and> sockets s ! w \<noteq> CLOSED)"
| "enabled (SocketClose w) s = (w < length (sockets s) \<and> sockets s ! w \<noteq> CLOSED)"
| "enabled (TimerFires k urlAccepted) s = (k < length (timers s))"
| "enabled e s = True"

text \<open>The \<open>k\<close>-th pending timeout is removed when it fires.\<close>

definition removeTimer :: "nat \<Rightarrow> nat list \<Rightarrow> nat list" where
  "removeTimer k ts = take k ts @ drop (Suc k) ts"

fun fire :: "event \<Rightarrow> service \<Rightarrow> service" where
  "fire (Connect urlAccepted) s = snd (connect urlAccepted s)"
| "fire Disconnect s = disconnect s"
| "fire (SendAudioChunk now) s = snd (sendAudioChunk now s)"
| "fire (SendRiskScore now) s = snd (sendRiskScore now s)"
| "fire (SendSessionEnd now) s = sendSessionEnd now s"
| "fire (SendAudioChunkHTTP responseOk) s = snd (sendAudioChunkHTTP responseOk s)"
| "fire (SendRiskScoreHTTP responseOk) s = snd (sendRiskScoreHTTP responseOk s)"
| "fire (SocketOpen w now) s = onopen now (s\<lparr>sockets := (sockets s)[w := OPEN]\<rparr>)"
| "fire (SocketMessage w parsed) s = onmessage parsed s"
| "fire (SocketError w) s = onerror s"
| "fire (SocketClose w) s = onclose (s\<lparr>sockets := (sockets s)[w := CLOSED]\<rparr>)"
| "fire (TimerFires k urlAccepted) s =
     snd (connect urlAccepted (s\<lparr>timers := removeTimer k (timers s)\<rparr>))"

definition step :: "service \<Rightarrow> event \<Rightarrow> service" where
  "step s e = (if enabled e s then fire e s else s)"

definition run :: "service \<Rightarrow> event list \<Rightarrow> service" where
  "run s evs = foldl step s evs"

text \<open>The delays of all timeouts set so far, in order.\<close>

fun timeoutsSet :: "effect list \<Rightarrow> nat list" where
  "timeoutsSet [] = []"
| "timeoutsSet (SetTimeout d # es) = d # timeoutsSet es"
| "timeoutsSet (e # es) = timeoutsSet es"

fun isSocketOpen :: "event \<Rightarrow> bool" where
  "isSocketOpen (SocketOpen w now) = True"
| "isSocketOpen e = False"

section \<open>Properties of the risk scorer\<close>

lemma addIf_contrib: "addIf c w r = r + contrib c w"
  by (simp add: addIf_def contrib_def)

lemma contrib_nonneg: "0 \<le> w \<Longrightarrow> 0 \<le> contrib c w"
  by (simp add: contrib_def)

text \<open>
  C4: for every feature vector and every combination of cue flags the scorer returns the
  sum of the nine listed contributions, clamped to at most 100, and the result lies in
  the interval from 0 to 100.
\<close>

theorem C4_risk_sum_clamped:
  "calculateRealTimeRisk f p =
     min 100 (contrib (js_gt (spectralFlux f) 50) 15 + contrib (js_gt (rms f) 0.8) 10
              + contrib (js_gt (zeroCrossingRate f) 0.3) 10
              + contrib (urgency p) 25 + contrib (authority p) 20
              + contrib (socialProof p) 15 + contrib (reciprocity p) 15
              + contrib (commitment p) 10 + contrib (liking p) 10)
   \<and> 0 \<le> calculateRealTimeRisk f p \<and> calculateRealTimeRisk f p \<le> 100"
proof -
  let ?sum = "contrib (js_gt (spectralFlux f) 50) 15 + contrib (js_gt (rms f) 0.8) 10
              + contrib (js_gt (zeroCrossingRate f) 0.3) 10
              + contrib (urgency p) 25 + contrib (authority p) 20
              + contrib (socialProof p) 15 + contrib (reciprocity p) 15
              + contrib (commitment p) 10 + contrib (liking p) 10"
  have eq: "calculateRealTimeRisk f p = min 100 ?sum"
    by (simp add: calculateRealTimeRisk_def Let_def addIf_contrib)
  have nonneg: "0 \<le> ?sum"
    by (intro add_nonneg_nonneg contrib_nonneg) simp_all
  from eq nonneg show ?thesis by simp
qed

text \<open>
  C5: the feature vector with spectralFlux 60, rms 0.9 and zeroCrossingRate 0.35, with
  the cues urgency and authority set and the four others clear, scores
  15 + 10 + 10 + 25 + 20 = 80; the popup's mapping gives LOW below 30, MEDIUM from 30 to
  59, HIGH from 60 to 79 and CRITICAL from 80 on, so this score is shown as critical.
\<close>

theorem C5_example_scores_critical:
  "calculateRealTimeRisk
     (f\<lparr>spectralFlux := Num 60, rms := Num 0.9, zeroCrossingRate := Num 0.35\<rparr>)
     (p\<lparr>urgency := True, authority := True, socialProof := False, reciprocity := False,
        commitment := False, liking := False\<rparr>) = 15 + 10 + 10 + 25 + 20
   \<and> updateRiskScore (15 + 10 + 10 + 25 + 20) = (''CRITICAL'', ''risk-critical'')
   \<and> fst (updateRiskScore score) =
       (if score < 30 then ''LOW'' else if score \<le> 59 then ''MEDIUM''
        else if score \<le> 79 then ''HIGH'' else ''CRITICAL'')"
  by (simp add: calculateRealTimeRisk_def addIf_def updateRiskScore_def)

section \<open>Properties of the feature extractor\<close>

lemma foldl_add_zero:
  "\<forall>x\<in>set xs. g x = (0::real) \<Longrightarrow> foldl (\<lambda>s x. s + g x) a xs = a"
  by (induction xs arbitrary: a) auto

lemma foldl_add_one:
  "\<forall>x\<in>set xs. g x = (1::real) \<Longrightarrow> foldl (\<lambda>s x. s + g x) a xs = a + real (length xs)"
  by (induction xs arbitrary: a) auto

lemma countCrossings_const: "set xs \<subseteq> {b} \<Longrightarrow> countCrossings xs = 0"
  by (induction xs rule: countCrossings.induct) auto

lemma rms_midpoint:
  assumes "timeData \<noteq> []" and "\<forall>x\<in>set timeData. x = 128"
  shows "calculateRMS timeData = Num 0"
proof -
  have "foldl (\<lambda>sum b. sum + ((byteval b - 128) / 128) * ((byteval b - 128) / 128)) 0 timeData = 0"
    by (rule foldl_add_zero) (use assms(2) in \<open>auto simp: byteval_def\<close>)
  with assms(1) show ?thesis
    by (simp add: calculateRMS_def js_div_def)
qed

lemma rms_zero_bytes:
  assumes "timeData \<noteq> []" and "\<forall>x\<in>set timeData. x = 0"
  shows "calculateRMS timeData = Num 1"
proof -
  have "foldl (\<lambda>sum b. sum + ((byteval b - 128) / 128) * ((byteval b - 128) / 128)) 0 timeData
          = 0 + real (length timeData)"
    by (rule foldl_add_one) (use assms(2) in \<open>auto simp: byteval_def\<close>)
  with assms(1) show ?thesis
    by (simp add: calculateRMS_def js_div_def)
qed

lemma zcr_constant:
  assumes "length timeData \<noteq> 1" and "\<forall>x\<in>set timeData. x = b"
  shows "calculateZeroCrossingRate timeData = Num 0"
proof -
  have "countCrossings timeData = 0"
    by (rule countCrossings_const [of _ b]) (use assms(2) in auto)
  with assms(1) show ?thesis
    by (simp add: calculateZeroCrossingRate_def js_div_def)
qed

lemma energy_zero_bytes:
  assumes "frequencyData \<noteq> []" and "\<forall>x\<in>set frequencyData. x = 0"
  shows "calculateEnergy frequencyData = Num 0"
proof -
  have "foldl (\<lambda>energy v. energy + byteval v * byteval v) 0 frequencyData = 0"
    by (rule foldl_add_zero) (use assms(2) in \<open>auto simp: byteval_def\<close>)
  with assms(1) show ?thesis
    by (simp add: calculateEnergy_def js_div_def)
qed

text \<open>
  C6, as stated, fails on the byte buffers the extractor receives: a time-domain buffer
  whose bytes are all 0 is full-scale negative, not silent, and its rms is 1. An empty
  buffer gives \<open>NaN\<close> for rms, and a one-sample buffer gives \<open>NaN\<close> for the
  zero-crossing rate.
\<close>

theorem C6_all_zero_bytes_counterexample:
  "rms (fst (extractRealTimeFeatures [0, 0, 0, 0] [0, 0, 0, 0] 0 None)) = Num 1
   \<and> rms (fst (extractRealTimeFeatures [0, 0, 0, 0] [0, 0, 0, 0] 0 None)) \<noteq> Num 0
   \<and> calculateRMS [] = NaN
   \<and> calculateZeroCrossingRate [128] = NaN"
  by (simp add: extractRealTimeFeatures_def calculateRMS_def calculateZeroCrossingRate_def
        byteval_def js_div_def)

text \<open>
  C6, amended: silence is what the analyser delivers for it, time-domain bytes all at
  the midpoint 128 and frequency-domain bytes all 0. For every such non-empty buffer the
  extractor yields rms = 0 and energy = 0, and zeroCrossingRate = 0 when the buffer has
  at least two samples; a non-empty time-domain buffer of bytes all 0 has rms = 1. On
  the first frame (no previous frequency data) spectralFlux is 0 for every input.
\<close>

theorem C6_silent_features:
  "(timeData \<noteq> [] \<and> (\<forall>b\<in>set timeData. b = 128) \<longrightarrow>
      rms (fst (extractRealTimeFeatures frequencyData timeData now prev)) = Num 0)
   \<and> (2 \<le> length timeData \<and> (\<forall>b\<in>set timeData. b = 128) \<longrightarrow>
      zeroCrossingRate (fst (extractRealTimeFeatures frequencyData timeData now prev)) = Num 0)
   \<and> (frequencyData \<noteq> [] \<and> (\<forall>b\<in>set frequencyData. b = 0) \<longrightarrow>
      energy (fst (extractRealTimeFeatures frequencyData timeData now prev)) = Num 0)
   \<and> (timeData \<noteq> [] \<and> (\<forall>b\<in>set timeData. b = 0) \<longrightarrow>
      rms (fst (extractRealTimeFeatures frequencyData timeData now prev)) = Num 1)
   \<and> calculateSpectralFlux frequencyData None = Num 0
   \<and> spectralFlux (fst (extractRealTimeFeatures frequencyData timeData now None)) = Num 0"
proof -
  have flux: "calculateSpectralFlux frequencyData None = Num 0"
    by (simp add: calculateSpectralFlux_def)
  have zcr: "2 \<le> length timeData \<and> (\<forall>b\<in>set timeData. b = 128) \<longrightarrow>
      calculateZeroCrossingRate timeData = Num 0"
    using zcr_constant [of timeData 128] by auto
  show ?thesis
    using flux zcr
    by (simp add: extractRealTimeFeatures_def rms_midpoint rms_zero_bytes energy_zero_bytes)
qed

theorem C6_silent_features_witness:
  "rms (fst (extractRealTimeFeatures [0, 0, 0] [128, 128, 128] 7 (Some [9, 9, 9]))) = Num 0
   \<and> zeroCrossingRate (fst (extractRealTimeFeatures [0, 0, 0] [128, 128, 128] 7 (Some [9, 9, 9]))) = Num 0
   \<and> energy (fst (extractRealTimeFeatures [0, 0, 0] [128, 128, 128] 7 (Some [9, 9, 9]))) = Num 0
   \<and> rms (fst (extractRealTimeFeatures [0, 0, 0] [0, 0, 0] 7 (Some [9, 9, 9]))) = Num 1
   \<and> spectralFlux (fst (extractRealTimeFeatures [5, 6, 7] [1, 2, 3] 7 None)) = Num 0"
  using C6_silent_features [of "[128, 128, 128]" "[0, 0, 0]" 7 "Some [9, 9, 9]"]
        C6_silent_features [of "[0, 0, 0]" "[0, 0, 0]" 7 "Some [9, 9, 9]"]
        C6_silent_features [of "[1, 2, 3]" "[5, 6, 7]" 7 None]
  by simp

section \<open>Properties of call detection\<close>

text \<open>
  The loop invariant of the sampling interval: from a state with between 1 and 29
  samples taken, the promise resolves at the tick that brings the 30th sample, on the
  accumulated total and the jumps counted from the last energy on.
\<close>

lemma analyzeFrom_window:
  "0 < samples s \<Longrightarrow> samples s < 30 \<Longrightarrow> 30 - samples s \<le> length frames \<Longrightarrow>
   analyzeFrom s frames =
     Some (resolveCall
       (totalEnergy s + sum_list (map frameEnergy (take (30 - samples s) frames)))
       (varianceCount s + jumps (lastEnergy s # map frameEnergy (take (30 - samples s) frames)))
       30)"
proof (induction frames arbitrary: s)
  case Nil
  then show ?case by simp
next
  case (Cons d ds)
  show ?case
  proof (cases "samples s = 29")
    case True
    then show ?thesis
      using Cons.prems by (simp add: sampleTick_def Let_def)
  next
    case False
    define s' where "s' = fst (sampleTick d s)"
    have tick: "sampleTick d s = (s', None)"
      using False Cons.prems by (simp add: sampleTick_def Let_def s'_def)
    have s': "samples s' = Suc (samples s)" "totalEnergy s' = totalEnergy s + frameEnergy d"
      "lastEnergy s' = frameEnergy d"
      "varianceCount s' = varianceCount s + (if \<bar>frameEnergy d - lastEnergy s\<bar> > 100 then 1 else 0)"
      using Cons.prems by (simp_all add: s'_def sampleTick_def Let_def)
    have rem: "30 - samples s = Suc (30 - samples s')"
      using s'(1) Cons.prems False by simp
    have IH: "analyzeFrom s' ds = Some (resolveCall
       (totalEnergy s' + sum_list (map frameEnergy (take (30 - samples s') ds)))
       (varianceCount s' + jumps (lastEnergy s' # map frameEnergy (take (30 - samples s') ds)))
       30)"
      using Cons.prems False s'(1) by (intro Cons.IH) simp_all
    show ?thesis
      by (simp add: tick IH rem s' add.assoc)
  qed
qed

lemma analyzeCallCharacteristics_window:
  assumes "30 \<le> length frames"
  shows "analyzeCallCharacteristics frames =
     Some (resolveCall (sum_list (windowEnergies frames)) (jumps (windowEnergies frames)) 30)"
proof -
  from assms obtain d ds where frames: "frames = d # ds" and len: "29 \<le> length ds"
    by (cases frames) auto
  define s' where "s' = fst (sampleTick d newSampler)"
  have tick: "sampleTick d newSampler = (s', None)"
    by (simp add: sampleTick_def Let_def s'_def newSampler_def)
  have s': "samples s' = 1" "totalEnergy s' = frameEnergy d" "lastEnergy s' = frameEnergy d"
      "varianceCount s' = 0"
    by (simp_all add: s'_def sampleTick_def Let_def newSampler_def)
  have "analyzeFrom s' ds = Some (resolveCall
       (totalEnergy s' + sum_list (map frameEnergy (take (30 - samples s') ds)))
       (varianceCount s' + jumps (lastEnergy s' # map frameEnergy (take (30 - samples s') ds)))
       30)"
    by (rule analyzeFrom_window) (use len s' in simp_all)
  then show ?thesis
    by (simp add: analyzeCallCharacteristics_def frames tick s' windowEnergies_def
          numeral_eq_Suc del: jumps.simps)
qed

text \<open>
  C7: over every observation window (the first 30 frames delivered) the detector
  resolves, and declares a call exactly when the average energy exceeds 50 and the
  fraction of samples whose energy jumped by more than 100 exceeds 0.3. An active call
  has confidence min(0.9, 0.5 + varianceRatio * 0.4) and max(2, floor(avgEnergy / 30))
  participants; otherwise confidence is 0.1 and there is 1 participant. With average
  energy 60 and variance ratio 0.4 the result is a call with confidence 0.66 and 2
  participants.
\<close>

theorem C7_call_decision:
  assumes "30 \<le> length frames"
  shows "\<exists>r. analyzeCallCharacteristics frames = Some r
     \<and> isCall r = (avgEnergy frames > 50 \<and> varianceRatio frames > 0.3)
     \<and> confidence r = (if isCall r then min 0.9 (0.5 + varianceRatio frames * 0.4) else 0.1)
     \<and> participantCount r = (if isCall r then max 2 \<lfloor>avgEnergy frames / 30\<rfloor> else 1)
     \<and> (avgEnergy frames = 60 \<and> varianceRatio frames = 0.4 \<longrightarrow>
          r = \<lparr>isCall = True, confidence = 0.66, participantCount = 2\<rparr>)"
proof -
  let ?r = "resolveCall (sum_list (windowEnergies frames)) (jumps (windowEnergies frames)) 30"
  have res: "analyzeCallCharacteristics frames = Some ?r"
    using assms by (rule analyzeCallCharacteristics_window)
  have call: "isCall ?r = (avgEnergy frames > 50 \<and> varianceRatio frames > 0.3)"
    by (simp add: resolveCall_def Let_def avgEnergy_def varianceRatio_def)
  have conf: "confidence ?r = (if isCall ?r then min 0.9 (0.5 + varianceRatio frames * 0.4) else 0.1)"
    by (simp add: resolveCall_def Let_def avgEnergy_def varianceRatio_def)
  have part: "participantCount ?r = (if isCall ?r then max 2 \<lfloor>avgEnergy frames / 30\<rfloor> else 1)"
    by (simp add: resolveCall_def Let_def avgEnergy_def varianceRatio_def)
  have ex: "avgEnergy frames = 60 \<and> varianceRatio frames = 0.4 \<longrightarrow>
          ?r = \<lparr>isCall = True, confidence = 0.66, participantCount = 2\<rparr>"
  proof
    assume h: "avgEnergy frames = 60 \<and> varianceRatio frames = 0.4"
    have "isCall ?r" using h call by simp
    moreover have "confidence ?r = 0.66" using h call conf by simp
    moreover have "participantCount ?r = 2" using h call part by simp
    ultimately show "?r = \<lparr>isCall = True, confidence = 0.66, participantCount = 2\<rparr>"
      by simp
  qed
  from res call conf part ex show ?thesis by blast
qed

theorem C7_call_decision_witness:
  "analyzeCallCharacteristics
     (map (\<lambda>e. [e]) [150, 0, 150, 0, 150, 0, 150, 0, 150, 0, 150, 0, 150, 150, 150, 150, 150,
                      100, 50, 0, 0, 0, 0, 0, 0, 0, 0, 0, 0, 0])
   = Some \<lparr>isCall = True, confidence = 0.66, participantCount = 2\<rparr>"
proof -
  let ?w = "map (\<lambda>e. [e]) [150, 0, 150, 0, 150, 0, 150, 0, 150, 0, 150, 0, 150, 150, 150, 150, 150,
                      100, 50, 0, 0, 0, 0, 0, 0, 0, 0, 0, 0, 0 :: byte]"
  have len: "30 \<le> length ?w" by simp
  have avg: "avgEnergy ?w = 60"
    by (simp add: avgEnergy_def windowEnergies_def frameEnergy_def)
  have var: "varianceRatio ?w = 0.4"
    by (simp add: varianceRatio_def windowEnergies_def frameEnergy_def)
  from C7_call_decision [OF len] avg var show ?thesis by auto
qed

section \<open>Properties of bulk capture\<close>

text \<open>
  C8, as stated, fails: \<^verbatim>\<open>startCallRecording\<close> has no check for a capture in
  progress. Started twice with the microphone granted, the second call returns a second
  recorder instead of an error, and two captures are active. \<^verbatim>\<open>stop\<close> then reaches
  only the second; the first keeps recording.
\<close>

theorem C8_second_capture_starts_counterexample:
  "activeCaptures (snd (startCallRecording None newProcessor)) = 1
   \<and> fst (startCallRecording None (snd (startCallRecording None newProcessor))) = Inr 1
   \<and> activeCaptures (snd (startCallRecording None (snd (startCallRecording None newProcessor)))) = 2
   \<and> recorders (stop (snd (startCallRecording None (snd (startCallRecording None newProcessor)))))
       = [recording, inactive]"
  by (simp add: startCallRecording_def newProcessor_def activeCaptures_def stop_def
        stopCurrentRecorder_def)

text \<open>
  C8, amended: starting a bulk capture never fails because one is already active. In
  every state, when the microphone request is granted the call returns a new recorder,
  makes it the current one and leaves every earlier recorder as it was, so the number of
  active captures grows by one; the only failure is a rejected microphone request, which
  is rethrown and changes nothing.
\<close>

theorem C8_start_ignores_active_capture:
  "fst (startCallRecording None p) = Inr (length (recorders p))
   \<and> mediaRecorder (snd (startCallRecording None p)) = Some (length (recorders p))
   \<and> recorders (snd (startCallRecording None p)) = recorders p @ [recording]
   \<and> activeCaptures (snd (startCallRecording None p)) = activeCaptures p + 1
   \<and> startCallRecording (Some e) p = (Inl e, p)"
  by (simp add: startCallRecording_def Let_def activeCaptures_def)

section \<open>Properties of the container encoder\<close>

lemma length_uint16Bytes [simp]: "length (uint16Bytes v le) = 2"
  by (simp add: uint16Bytes_def Let_def)

lemma length_uint32Bytes [simp]: "length (uint32Bytes v le) = 4"
  by (simp add: uint32Bytes_def Let_def)

lemma length_stringBytes [simp]: "length (stringBytes str) = length str"
  by (simp add: stringBytes_def)

lemma writeBytes_fresh:
  "offset = length P \<Longrightarrow> length bs \<le> k \<Longrightarrow>
   writeBytes offset bs (P @ replicate k z) = Some ((P @ bs) @ replicate (k - length bs) z)"
  by (simp add: writeBytes_def)

lemma setUint16_fresh:
  "offset = length P \<Longrightarrow> 2 \<le> k \<Longrightarrow>
   setUint16 offset v le (P @ replicate k z) = Some ((P @ uint16Bytes v le) @ replicate (k - 2) z)"
  by (simp add: setUint16_def writeBytes_fresh)

lemma setUint32_fresh:
  "offset = length P \<Longrightarrow> 4 \<le> k \<Longrightarrow>
   setUint32 offset v le (P @ replicate k z) = Some ((P @ uint32Bytes v le) @ replicate (k - 4) z)"
  by (simp add: setUint32_def writeBytes_fresh)

lemma writeString_fresh:
  "offset = length P \<Longrightarrow> length str \<le> k \<Longrightarrow>
   writeString offset str (P @ replicate k z) = Some ((P @ stringBytes str) @ replicate (k - length str) z)"
proof (induction str arbitrary: offset P k)
  case Nil
  then show ?case by (simp add: stringBytes_def)
next
  case (Cons c cs)
  have "setUint8 offset (of_char c) (P @ replicate k z)
          = Some ((P @ [of_nat (of_char c mod 256)]) @ replicate (k - 1) z)"
    using Cons.prems by (simp add: setUint8_def writeBytes_fresh)
  moreover have "writeString (Suc offset) cs ((P @ [of_nat (of_char c mod 256)]) @ replicate (k - 1) z)
          = Some (((P @ [of_nat (of_char c mod 256)]) @ stringBytes cs) @ replicate (k - 1 - length cs) z)"
    using Cons.prems by (intro Cons.IH) simp_all
  ultimately show ?case
    by (simp add: stringBytes_def)
qed

lemma writeString_start:
  "length str \<le> k \<Longrightarrow>
   writeString 0 str (replicate k z) = Some (stringBytes str @ replicate (k - length str) z)"
  using writeString_fresh [of 0 "[]" str k z] by simp

lemma writeChannels_fresh:
  "offset = length P \<Longrightarrow> length chs * 2 \<le> k \<Longrightarrow>
   writeChannels b i chs (P @ replicate k z, offset)
     = Some ((P @ concat (map (sampleBytes b i) chs)) @ replicate (k - length chs * 2) z,
             offset + length chs * 2)"
proof (induction chs arbitrary: offset P k)
  case Nil
  then show ?case by simp
next
  case (Cons c cs)
  have "setInt16 offset (scaleSample (clampSample (getChannelSample b c i))) True (P @ replicate k z)
          = Some ((P @ sampleBytes b i c) @ replicate (k - 2) z)"
    using Cons.prems by (simp add: setInt16_def sampleBytes_def setUint16_fresh)
  moreover have "writeChannels b i cs ((P @ sampleBytes b i c) @ replicate (k - 2) z, offset + 2)
          = Some (((P @ sampleBytes b i c) @ concat (map (sampleBytes b i) cs))
                    @ replicate (k - 2 - length cs * 2) z, offset + 2 + length cs * 2)"
    using Cons.prems by (intro Cons.IH) (simp_all add: sampleBytes_def)
  ultimately show ?case
    by simp
qed

lemma length_frameBytes [simp]: "length (frameBytes b i) = numberOfChannels b * 2"
  by (simp add: frameBytes_def length_concat comp_def sampleBytes_def sum_list_triv)

lemma writeFrames_fresh:
  "offset = length P \<Longrightarrow> length frs * numberOfChannels b * 2 \<le> k \<Longrightarrow>
   writeFrames b frs (P @ replicate k z, offset)
     = Some ((P @ concat (map (frameBytes b) frs)) @ replicate (k - length frs * numberOfChannels b * 2) z,
             offset + length frs * numberOfChannels b * 2)"
proof (induction frs arbitrary: offset P k)
  case Nil
  then show ?case by simp
next
  case (Cons i later)
  have le: "numberOfChannels b * 2 \<le> k"
    using Cons.prems by (simp add: algebra_simps)
  have "writeChannels b i [0..<numberOfChannels b] (P @ replicate k z, offset)
          = Some ((P @ frameBytes b i) @ replicate (k - numberOfChannels b * 2) z,
                  offset + numberOfChannels b * 2)"
    using writeChannels_fresh [of offset P "[0..<numberOfChannels b]" k b i z] Cons.prems le
    by (simp add: frameBytes_def)
  moreover have "writeFrames b later ((P @ frameBytes b i) @ replicate (k - numberOfChannels b * 2) z,
                    offset + numberOfChannels b * 2)
          = Some (((P @ frameBytes b i) @ concat (map (frameBytes b) later))
                    @ replicate (k - numberOfChannels b * 2 - length later * numberOfChannels b * 2) z,
                  offset + numberOfChannels b * 2 + length later * numberOfChannels b * 2)"
    using Cons.prems by (intro Cons.IH) (simp_all add: algebra_simps)
  ultimately show ?case
    by (simp add: algebra_simps)
qed

lemma length_wavData [simp]: "length (wavData b) = frameCount b * numberOfChannels b * 2"
  by (simp add: wavData_def length_concat comp_def sum_list_triv)

lemma length_wavHeader [simp]: "length (wavHeader b) = 44"
  by (simp add: wavHeader_def)

lemma audioBufferToWav_layout: "audioBufferToWav b = Some (wavHeader b @ wavData b)"
  unfolding audioBufferToWav_def Let_def
  apply (simp add: writeString_start writeString_fresh setUint32_fresh setUint16_fresh
          writeFrames_fresh del: append_assoc writeString.simps)
  apply (simp add: wavHeader_def wavData_def)
  done

lemma unat_byte_mod: "unat (of_nat (n mod 256) :: byte) = n mod 256"
  by (simp add: unat_of_nat)

lemma unat_byte_small: "n < 256 \<Longrightarrow> unat (of_nat n :: byte) = n"
  by (simp add: unat_of_nat)

lemma getUint16_drop: "getUint16 offset le view = getUint16 0 le (drop offset view)"
  by (auto simp: getUint16_def Let_def add.commute)

lemma getUint32_drop: "getUint32 offset le view = getUint32 0 le (drop offset view)"
  by (auto simp: getUint32_def Let_def add.commute)

lemma getInt16_drop: "getInt16 offset le view = getInt16 0 le (drop offset view)"
  unfolding getInt16_def by (subst getUint16_drop) simp

lemma getUint16_bytes: "getUint16 0 True (uint16Bytes v True @ R) = Some (v mod 65536)"
proof -
  have "v mod 65536 div 256 < 256" by simp
  then show ?thesis
    by (simp add: getUint16_def uint16Bytes_def Let_def unat_byte_mod unat_byte_small)
qed

lemma drop_concat_uniform:
  "\<forall>xs\<in>set xss. length xs = n \<Longrightarrow> drop (i * n) (concat xss) = concat (drop i xss)"
proof (induction xss arbitrary: i)
  case Nil
  then show ?case by simp
next
  case (Cons x xss)
  then show ?case by (cases i) simp_all
qed

lemma split32:
  "(n::nat) mod 256 + 256 * (n div 256 mod 256) + 65536 * (n div 65536 mod 256)
     + 16777216 * (n div 16777216) = n"
proof -
  define a where "a = n div 256"
  define b where "b = a div 256"
  define c where "c = b div 256"
  have b: "n div 65536 = b"
    using div_mult2_eq [of n 256 256] by (simp add: a_def b_def)
  have c: "n div 16777216 = c"
    using div_mult2_eq [of n 65536 256] b by (simp add: c_def)
  have "n = n mod 256 + 256 * a" by (simp add: a_def)
  moreover have "a = a mod 256 + 256 * b" by (simp add: b_def)
  moreover have "b = b mod 256 + 256 * c" by (simp add: c_def)
  ultimately have "n mod 256 + 256 * (a mod 256) + 65536 * (b mod 256) + 16777216 * c = n"
    by linarith
  then show ?thesis by (simp add: b c a_def [symmetric])
qed

lemma getUint32_bytes: "getUint32 0 True (uint32Bytes v True @ R) = Some (v mod 4294967296)"
proof -
  let ?n = "v mod 4294967296"
  have lt: "?n div 16777216 < 256"
    by (simp add: less_mult_imp_div_less)
  have bytes: "uint32Bytes v True = [of_nat (?n mod 256), of_nat (?n div 256 mod 256),
        of_nat (?n div 65536 mod 256), of_nat (?n div 16777216)]"
    by (simp add: uint32Bytes_def Let_def)
  have "getUint32 0 True ([of_nat (?n mod 256), of_nat (?n div 256 mod 256),
        of_nat (?n div 65536 mod 256), of_nat (?n div 16777216)] @ R)
     = Some (?n mod 256 + 256 * (?n div 256 mod 256) + 65536 * (?n div 65536 mod 256)
     + 16777216 * (?n div 16777216))"
    unfolding getUint32_def Let_def
    by (simp only: unat_byte_mod unat_byte_small [OF lt] append_Cons nth_Cons_0 nth_Cons_Suc
          One_nat_def numeral_2_eq_2 numeral_3_eq_3 add_0 list.size if_True) simp
  then show ?thesis
    by (simp only: bytes split32)
qed

lemma quantize_range:
  assumes "- 1 \<le> x" "x \<le> 1"
  shows "- 32768 \<le> quantize x \<and> quantize x \<le> 32767"
proof (cases "x < 0")
  case True
  have "- 32768 \<le> x * 32768" using assms by simp
  then have "- 32768 \<le> \<lceil>x * 32768\<rceil>" by linarith
  moreover have "\<lceil>x * 32768\<rceil> \<le> 0" using True by (simp add: ceiling_le_iff)
  ultimately show ?thesis using True by (simp add: quantize_def js_trunc_def)
next
  case False
  have "x * 32767 \<le> 32767" using assms by simp
  then have "\<lfloor>x * 32767\<rfloor> \<le> 32767" by linarith
  moreover have "0 \<le> \<lfloor>x * 32767\<rfloor>" using False by simp
  ultimately show ?thesis using False by (simp add: quantize_def js_trunc_def)
qed

lemma dequantize_error:
  assumes "- 1 \<le> x" "x \<le> 1"
  shows "\<bar>dequantize (quantize x) - x\<bar> < 1 / 32767"
proof (cases "x < 0")
  case True
  let ?q = "\<lceil>x * 32768\<rceil>"
  have q: "quantize x = ?q" using True by (simp add: quantize_def js_trunc_def)
  have up: "x * 32768 \<le> real_of_int ?q" by linarith
  have lo: "real_of_int ?q < x * 32768 + 1" by linarith
  have le0: "?q \<le> 0" using True by (simp add: ceiling_le_iff)
  show ?thesis
  proof (cases "?q < 0")
    case True
    then have d: "dequantize ?q = real_of_int ?q / 32768" by (simp add: dequantize_def)
    define r where "r = real_of_int ?q / 32768"
    have "x \<le> r" using up by (simp add: r_def)
    moreover have "r < x + 1 / 32768" using lo by (simp add: r_def)
    ultimately have "\<bar>r - x\<bar> < 1 / 32767" by linarith
    then show ?thesis unfolding q d r_def .
  next
    case False
    with le0 have z: "?q = 0" by (simp only: not_less order.antisym)
    have "- 1 < x * 32768" using lo unfolding z by simp
    then have "- (1 / 32768) < x" by simp
    moreover have "dequantize 0 = 0" by (simp add: dequantize_def)
    ultimately have "\<bar>dequantize 0 - x\<bar> < 1 / 32767" using \<open>x < 0\<close> by simp
    then show ?thesis unfolding q z .
  qed
next
  case False
  let ?q = "\<lfloor>x * 32767\<rfloor>"
  have q: "quantize x = ?q" using False by (simp add: quantize_def js_trunc_def)
  have ge0: "0 \<le> ?q" using False by simp
  have up: "real_of_int ?q \<le> x * 32767" by linarith
  have lo: "x * 32767 - 1 < real_of_int ?q" by linarith
  have d: "dequantize ?q = real_of_int ?q / 32767" using ge0 by (simp add: dequantize_def)
  define r where "r = real_of_int ?q / 32767"
  have "r \<le> x" using up by (simp add: r_def)
  moreover have "x - 1 / 32767 < r" using lo by (simp add: r_def field_simps)
  ultimately have "\<bar>r - x\<bar> < 1 / 32767" by linarith
  then show ?thesis unfolding q d r_def .
qed

lemma signed_roundtrip:
  assumes "- 32768 \<le> (q::int)" "q \<le> 32767"
  shows "(let u = nat (q mod 65536) mod 65536 in if u \<ge> 32768 then int u - 65536 else int u) = q"
proof (cases "q < 0")
  case True
  have "(q + 65536) mod 65536 = q + 65536"
    by (rule mod_pos_pos_trivial) (use assms True in auto)
  moreover have "(q + 65536) mod 65536 = q mod 65536"
    by simp
  ultimately have "q mod 65536 = q + 65536"
    by simp
  then show ?thesis using True assms by (simp add: Let_def)
next
  case False
  then have "q mod 65536 = q" using assms by simp
  then show ?thesis using False assms by (simp add: Let_def)
qed

lemma drop_map_upt: "i < n \<Longrightarrow> drop i (map f [0..<n]) = f i # map f [Suc i..<n]"
proof -
  assume "i < n"
  then have "[i..<n] = i # [Suc i..<n]" by (rule upt_conv_Cons)
  moreover have "drop i (map f [0..<n]) = map f [i..<n]" by (simp add: drop_map)
  ultimately show ?thesis by simp
qed

lemma drop_wavData:
  assumes "i < frameCount b" "channel < numberOfChannels b"
  shows "\<exists>R. drop (2 * (i * numberOfChannels b + channel)) (wavData b) = sampleBytes b i channel @ R"
proof -
  let ?C = "numberOfChannels b"
  have split: "2 * (i * ?C + channel) = i * (?C * 2) + channel * 2"
    by (simp add: algebra_simps)
  have frames: "drop (i * (?C * 2)) (wavData b)
                  = frameBytes b i @ concat (map (frameBytes b) [Suc i..<frameCount b])"
    unfolding wavData_def
    by (subst drop_concat_uniform) (simp_all add: drop_map_upt assms)
  have chans: "drop (channel * 2) (frameBytes b i)
                  = sampleBytes b i channel @ concat (map (sampleBytes b i) [Suc channel..<?C])"
    unfolding frameBytes_def
    by (subst drop_concat_uniform) (simp_all add: drop_map_upt assms sampleBytes_def)
  have "drop (2 * (i * ?C + channel)) (wavData b)
          = drop (channel * 2) (drop (i * (?C * 2)) (wavData b))"
    unfolding split by (simp add: add.commute)
  also have "\<dots> = drop (channel * 2) (frameBytes b i)
                      @ concat (map (frameBytes b) [Suc i..<frameCount b])"
    using assms by (simp add: frames)
  finally show ?thesis
    by (simp add: chans)
qed

lemma getInt16_wav_sample:
  assumes "i < frameCount b" "channel < numberOfChannels b"
  shows "getInt16 (44 + 2 * (i * numberOfChannels b + channel)) True (wavHeader b @ wavData b)
           = map_option (\<lambda>u. if u \<ge> 32768 then int u - 65536 else int u)
               (Some (toUint16 (scaleSample (clampSample (getChannelSample b channel i))) mod 65536))"
proof -
  define k where "k = 2 * (i * numberOfChannels b + channel)"
  obtain R where R: "drop k (wavData b) = sampleBytes b i channel @ R"
    using drop_wavData [OF assms] unfolding k_def by blast
  have "drop (44 + k) (wavHeader b @ wavData b) = sampleBytes b i channel @ R"
    by (simp add: R)
  then have "getUint16 (44 + k) True (wavHeader b @ wavData b)
               = Some (toUint16 (scaleSample (clampSample (getChannelSample b channel i))) mod 65536)"
    by (subst getUint16_drop) (simp add: sampleBytes_def getUint16_bytes)
  then show ?thesis
    unfolding getInt16_def k_def by (simp only:)
qed

lemma sample_in_range:
  assumes "wellFormed b" "i < frameCount b" "channel < numberOfChannels b"
  shows "getChannelSample b channel i = Num (channelData b ! channel ! i)"
    and "channelData b ! channel ! i \<in> set (channelData b ! channel)"
    and "channelData b ! channel \<in> set (channelData b)"
proof -
  have ch: "channel < length (channelData b)"
    using assms by (simp add: wellFormed_def)
  then show mem: "channelData b ! channel \<in> set (channelData b)" by simp
  have "length (channelData b ! channel) = frameCount b"
    using assms(1) mem by (simp add: wellFormed_def list_all_iff)
  then have i: "i < length (channelData b ! channel)" using assms by simp
  then show "channelData b ! channel ! i \<in> set (channelData b ! channel)" by simp
  show "getChannelSample b channel i = Num (channelData b ! channel ! i)"
    using ch i by (simp add: getChannelSample_def)
qed

lemma toUint16_sample:
  assumes "- 1 \<le> x" "x \<le> 1"
  shows "toUint16 (scaleSample (clampSample (Num x))) = nat (quantize x mod 65536)"
  using assms by (simp add: quantize_def)

lemma stored_sample:
  assumes "wellFormed b" "i < frameCount b" "channel < numberOfChannels b"
    and "- 1 \<le> channelData b ! channel ! i" "channelData b ! channel ! i \<le> 1"
  shows "getInt16 (44 + 2 * (i * numberOfChannels b + channel)) True (wavHeader b @ wavData b)
           = Some (quantize (channelData b ! channel ! i))"
proof -
  let ?x = "channelData b ! channel ! i"
  have "getInt16 (44 + 2 * (i * numberOfChannels b + channel)) True (wavHeader b @ wavData b)
          = map_option (\<lambda>u. if u \<ge> 32768 then int u - 65536 else int u)
               (Some (nat (quantize ?x mod 65536) mod 65536))"
    by (simp only: getInt16_wav_sample [OF assms(2,3)] sample_in_range(1) [OF assms(1,2,3)]
          toUint16_sample [OF assms(4,5)])
  also have "\<dots> = Some (let u = nat (quantize ?x mod 65536) mod 65536
                  in if u \<ge> 32768 then int u - 65536 else int u)"
    by (simp only: option.map Let_def)
  also have "\<dots> = Some (quantize ?x)"
    using quantize_range [OF assms(4,5)] by (simp only: signed_roundtrip)
  finally show ?thesis .
qed

lemma header_fields:
  "getUint32 4 True (wavHeader b @ D) = Some ((36 + frameCount b * numberOfChannels b * 2) mod 4294967296)"
  "getUint32 16 True (wavHeader b @ D) = Some 16"
  "getUint16 20 True (wavHeader b @ D) = Some 1"
  "getUint16 22 True (wavHeader b @ D) = Some (numberOfChannels b mod 65536)"
  "getUint32 24 True (wavHeader b @ D) = Some (sampleRate b mod 4294967296)"
  "getUint32 28 True (wavHeader b @ D) = Some (sampleRate b * numberOfChannels b * 2 mod 4294967296)"
  "getUint16 32 True (wavHeader b @ D) = Some (numberOfChannels b * 2 mod 65536)"
  "getUint16 34 True (wavHeader b @ D) = Some 16"
  "getUint32 40 True (wavHeader b @ D) = Some (frameCount b * numberOfChannels b * 2 mod 4294967296)"
  by (subst getUint32_drop getUint16_drop, simp add: wavHeader_def getUint32_bytes getUint16_bytes)+

lemma header_tags:
  "take 4 (wavHeader b @ D) = stringBytes ''RIFF''"
  "take 4 (drop 8 (wavHeader b @ D)) = stringBytes ''WAVE''"
  "take 4 (drop 12 (wavHeader b @ D)) = stringBytes ''fmt ''"
  "take 4 (drop 36 (wavHeader b @ D)) = stringBytes ''data''"
  by (simp_all add: wavHeader_def)

text \<open>
  C9: for every well-formed multi-channel buffer with samples in [-1, 1] the encoder
  returns (no write is out of range) exactly 44 header bytes followed by
  length * channels * 2 data bytes. Every header field and every sample reads back
  little-endian: the header fields hold the RIFF/WAVE values of the buffer, and the
  16-bit value stored for frame \<open>i\<close> and channel \<open>channel\<close>, at offset
  44 + 2 * (i * channels + channel), is the quantized sample. Decoding it reproduces the
  original sample within one 16-bit quantization step, \<open>1 / 32767\<close>.
\<close>

theorem C9_wav_layout_and_roundtrip:
  assumes "wellFormed b"
    and "\<forall>c\<in>set (channelData b). \<forall>x\<in>set c. - 1 \<le> x \<and> x \<le> 1"
  shows "\<exists>wav. audioBufferToWav b = Some wav
     \<and> length wav = 44 + frameCount b * numberOfChannels b * 2
     \<and> take 4 wav = stringBytes ''RIFF''
     \<and> getUint32 4 True wav = Some ((36 + frameCount b * numberOfChannels b * 2) mod 4294967296)
     \<and> take 4 (drop 8 wav) = stringBytes ''WAVE''
     \<and> take 4 (drop 12 wav) = stringBytes ''fmt ''
     \<and> getUint32 16 True wav = Some 16
     \<and> getUint16 20 True wav = Some 1
     \<and> getUint16 22 True wav = Some (numberOfChannels b mod 65536)
     \<and> getUint32 24 True wav = Some (sampleRate b mod 4294967296)
     \<and> getUint32 28 True wav = Some (sampleRate b * numberOfChannels b * 2 mod 4294967296)
     \<and> getUint16 32 True wav = Some (numberOfChannels b * 2 mod 65536)
     \<and> getUint16 34 True wav = Some 16
     \<and> take 4 (drop 36 wav) = stringBytes ''data''
     \<and> getUint32 40 True wav = Some (frameCount b * numberOfChannels b * 2 mod 4294967296)
     \<and> (\<forall>i < frameCount b. \<forall>channel < numberOfChannels b.
           getInt16 (44 + 2 * (i * numberOfChannels b + channel)) True wav
             = Some (quantize (channelData b ! channel ! i))
           \<and> (\<exists>y. decodeSample (numberOfChannels b) wav i channel = Some y
                  \<and> \<bar>y - channelData b ! channel ! i\<bar> < 1 / 32767))"
proof -
  let ?wav = "wavHeader b @ wavData b"
  have enc: "audioBufferToWav b = Some ?wav"
    by (rule audioBufferToWav_layout)
  have len: "length ?wav = 44 + frameCount b * numberOfChannels b * 2"
    by simp
  have samples: "\<forall>i < frameCount b. \<forall>channel < numberOfChannels b.
           getInt16 (44 + 2 * (i * numberOfChannels b + channel)) True ?wav
             = Some (quantize (channelData b ! channel ! i))
           \<and> (\<exists>y. decodeSample (numberOfChannels b) ?wav i channel = Some y
                  \<and> \<bar>y - channelData b ! channel ! i\<bar> < 1 / 32767)"
  proof (intro allI impI)
    fix i channel
    assume i: "i < frameCount b" and ch: "channel < numberOfChannels b"
    let ?x = "channelData b ! channel ! i"
    have "?x \<in> set (channelData b ! channel)" "channelData b ! channel \<in> set (channelData b)"
      using sample_in_range [OF assms(1) i ch] by blast+
    then have range: "- 1 \<le> ?x" "?x \<le> 1"
      using assms(2) by blast+
    have stored: "getInt16 (44 + 2 * (i * numberOfChannels b + channel)) True ?wav
                    = Some (quantize ?x)"
      using assms(1) i ch range by (rule stored_sample)
    then have "decodeSample (numberOfChannels b) ?wav i channel = Some (dequantize (quantize ?x))"
      by (simp only: decodeSample_def option.map)
    moreover have "\<bar>dequantize (quantize ?x) - ?x\<bar> < 1 / 32767"
      using range by (rule dequantize_error)
    ultimately show "getInt16 (44 + 2 * (i * numberOfChannels b + channel)) True ?wav
             = Some (quantize ?x)
           \<and> (\<exists>y. decodeSample (numberOfChannels b) ?wav i channel = Some y
                  \<and> \<bar>y - ?x\<bar> < 1 / 32767)"
      using stored by blast
  qed
  show ?thesis
    by (intro exI [of _ ?wav] conjI enc len header_fields header_tags samples)
qed

theorem C9_wav_layout_and_roundtrip_witness:
  "\<exists>wav. audioBufferToWav \<lparr>frameCount = 2, numberOfChannels = 2, sampleRate = 16000,
                            channelData = [[1 / 2, - 1 / 4], [1, - 1]]\<rparr> = Some wav
     \<and> length wav = 52
     \<and> getUint32 4 True wav = Some 44
     \<and> getUint32 24 True wav = Some 16000
     \<and> getInt16 44 True wav = Some 16383
     \<and> getInt16 46 True wav = Some 32767
     \<and> getInt16 48 True wav = Some (- 8192)
     \<and> getInt16 50 True wav = Some (- 32768)
     \<and> decodeSample 2 wav 1 1 = Some (- 1)"
proof -
  let ?b = "\<lparr>frameCount = 2, numberOfChannels = 2, sampleRate = 16000,
             channelData = [[1 / 2, - 1 / 4], [1, - 1 :: real]]\<rparr>"
  have wf: "wellFormed ?b"
    by (simp add: wellFormed_def)
  have range: "\<forall>c\<in>set (channelData ?b). \<forall>x\<in>set c. - 1 \<le> x \<and> x \<le> 1"
    by simp
  have q: "quantize (1 / 2) = 16383" "quantize 1 = 32767" "quantize (- 1 / 4) = - 8192"
    "quantize (- 1) = - 32768"
    by (simp_all add: quantize_def js_trunc_def)
  from C9_wav_layout_and_roundtrip [OF wf range]
  obtain wav where wav: "audioBufferToWav ?b = Some wav" "length wav = 44 + 2 * 2 * 2"
    "getUint32 4 True wav = Some ((36 + 2 * 2 * 2) mod 4294967296)"
    "getUint32 24 True wav = Some (16000 mod 4294967296)"
    and all: "\<forall>i < 2. \<forall>channel < 2.
           getInt16 (44 + 2 * (i * 2 + channel)) True wav
             = Some (quantize ([[1 / 2, - 1 / 4], [1, - 1]] ! channel ! i))
           \<and> (\<exists>y. decodeSample 2 wav i channel = Some y
                  \<and> \<bar>y - [[1 / 2, - 1 / 4], [1, - 1]] ! channel ! i\<bar> < 1 / 32767)"
    by auto
  have s00: "getInt16 44 True wav = Some 16383"
    using all [rule_format, of 0 0] q by simp
  have s01: "getInt16 46 True wav = Some 32767"
    using all [rule_format, of 0 1] q by simp
  have s10: "getInt16 48 True wav = Some (- 8192)"
    using all [rule_format, of 1 0] q by simp
  have s11: "getInt16 50 True wav = Some (- 32768)"
    using all [rule_format, of 1 1] q by simp
  have d11: "decodeSample 2 wav 1 1 = Some (- 1)"
    using s11 by (simp add: decodeSample_def dequantize_def)
  from wav s00 s01 s10 s11 d11 show ?thesis
    by simp
qed

section \<open>Properties of the session channel\<close>

lemmas service_defs = connect_def disconnect_def sendAudioChunk_def sendRiskScore_def
  sendSessionEnd_def sendAudioChunkHTTP_def sendRiskScoreHTTP_def onopen_def onmessage_def
  handleIncomingMessage_def onerror_def onclose_def attemptReconnect_def sendMessage_def emit_def

subsection \<open>Sending while the channel is not open\<close>

text \<open>
  C1, as stated, fails for the two public senders: on a service that was never
  connected, and on one whose socket has closed unexpectedly, the channel is not open
  and \<^verbatim>\<open>sendAudioChunk\<close> and \<^verbatim>\<open>sendRiskScore\<close> throw.
\<close>

theorem C1_send_throws_counterexample:
  "\<not> socketReady (newService 1 ''a'')
   \<and> fst (sendAudioChunk 5 (newService 1 ''a'')) = Threw ''Not connected to backend''
   \<and> fst (sendRiskScore 5 (newService 1 ''a'')) = Threw ''Not connected to backend''
   \<and> \<not> socketReady (run (newService 1 ''a'') [Connect True, SocketOpen 0 2, SocketClose 0])
   \<and> fst (sendRiskScore 5 (run (newService 1 ''a'') [Connect True, SocketOpen 0 2, SocketClose 0]))
       = Threw ''Not connected to backend''"
  by (simp add: run_def step_def newService_def socketReady_def service_defs Let_def)

text \<open>
  C1, amended: \<^verbatim>\<open>sendMessage\<close>, through which every frame goes, is a no-op that logs a
  warning and raises nothing when the channel is not open. \<^verbatim>\<open>sendAudioChunk\<close> and
  \<^verbatim>\<open>sendRiskScore\<close> throw \<open>Not connected to backend\<close> and change nothing when the
  service is not connected (the flag is clear or there is no socket); when it is
  connected but the socket is not open they return normally with that warning.
  \<^verbatim>\<open>sendSessionEnd\<close> never throws: not connected it does nothing, otherwise it warns.
\<close>

theorem C1_send_when_not_open:
  "(\<not> socketReady s \<longrightarrow>
      sendMessage m s = emit (ConsoleWarn ''WebSocket not ready, message not sent'') s)
   \<and> (\<not> isConnected s \<or> websocket s = None \<longrightarrow>
      sendAudioChunk now s = (Threw ''Not connected to backend'', s)
      \<and> sendRiskScore now s = (Threw ''Not connected to backend'', s)
      \<and> sendSessionEnd now s = s)
   \<and> (isConnected s \<and> websocket s \<noteq> None \<and> \<not> socketReady s \<longrightarrow>
      sendAudioChunk now s
        = (Returned, emit (ConsoleWarn ''WebSocket not ready, message not sent'') s)
      \<and> sendRiskScore now s
        = (Returned, emit (ConsoleWarn ''WebSocket not ready, message not sent'') s)
      \<and> sendSessionEnd now s = emit (ConsoleWarn ''WebSocket not ready, message not sent'') s)"
  by (auto simp: socketReady_def sendMessage_def sendAudioChunk_def sendRiskScore_def
        sendSessionEnd_def split: option.splits)

theorem C1_send_when_not_open_witness:
  "sendAudioChunk 5 (newService 1 ''a'') = (Threw ''Not connected to backend'', newService 1 ''a'')
   \<and> sendRiskScore 5 (newService 1 ''a'') = (Threw ''Not connected to backend'', newService 1 ''a'')
   \<and> sendSessionEnd 5 (newService 1 ''a'') = newService 1 ''a''
   \<and> sendMessage \<lparr>msgType = session_end, msgSessionId = None, msgTimestamp = 5\<rparr> (newService 1 ''a'')
       = emit (ConsoleWarn ''WebSocket not ready, message not sent'') (newService 1 ''a'')
   \<and> sendAudioChunk 5 (run (newService 1 ''a'') [Connect True, Connect True, SocketOpen 0 2])
       = (Returned, emit (ConsoleWarn ''WebSocket not ready, message not sent'')
                      (run (newService 1 ''a'') [Connect True, Connect True, SocketOpen 0 2]))"
proof -
  let ?s = "newService 1 ''a''"
  let ?t = "run (newService 1 ''a'') [Connect True, Connect True, SocketOpen 0 2]"
  have s: "\<not> socketReady ?s" "\<not> isConnected ?s \<or> websocket ?s = None"
    by (simp_all add: newService_def socketReady_def)
  have t: "isConnected ?t \<and> websocket ?t \<noteq> None \<and> \<not> socketReady ?t"
    by (simp add: run_def step_def newService_def socketReady_def service_defs Let_def)
  from C1_send_when_not_open [of ?s "\<lparr>msgType = session_end, msgSessionId = None, msgTimestamp = 5\<rparr>" 5]
       C1_send_when_not_open [of ?t "\<lparr>msgType = session_end, msgSessionId = None, msgTimestamp = 5\<rparr>" 5]
       s t
  show ?thesis by blast
qed

subsection \<open>Disconnecting before a scheduled reconnect fires\<close>

text \<open>
  C2, as stated, fails: no timeout is ever cancelled. After an unexpected close has
  scheduled a reconnect with delay 1000, \<^verbatim>\<open>disconnect\<close> leaves the timeout pending;
  when it fires, \<^verbatim>\<open>connect\<close> runs and a second socket starts connecting.
\<close>

theorem C2_reconnect_after_disconnect_counterexample:
  "timers (run (newService 1 ''a'') [Connect True, SocketOpen 0 2, SocketClose 0]) = [1000]
   \<and> timers (run (newService 1 ''a'') [Connect True, SocketOpen 0 2, SocketClose 0, Disconnect])
       = [1000]
   \<and> enabled (TimerFires 0 True)
       (run (newService 1 ''a'') [Connect True, SocketOpen 0 2, SocketClose 0, Disconnect])
   \<and> sockets (run (newService 1 ''a'') [Connect True, SocketOpen 0 2, SocketClose 0, Disconnect])
       = [CLOSED]
   \<and> sockets (run (newService 1 ''a'')
        [Connect True, SocketOpen 0 2, SocketClose 0, Disconnect, TimerFires 0 True])
       = [CLOSED, CONNECTING]
   \<and> websocket (run (newService 1 ''a'')
        [Connect True, SocketOpen 0 2, SocketClose 0, Disconnect, TimerFires 0 True])
       = Some 1"
  by (simp add: run_def step_def newService_def service_defs closeSocket_def removeTimer_def
        Let_def)

text \<open>
  C2, amended: \<^verbatim>\<open>disconnect\<close> does not cancel a scheduled reconnect. It leaves every
  pending timeout pending, and when such a timeout fires after the disconnect,
  \<^verbatim>\<open>connect\<close> runs: with the configured URL accepted, a new socket starts connecting
  and becomes the service's current socket.
\<close>

theorem C2_disconnect_keeps_reconnect:
  "timers (step s Disconnect) = timers s
   \<and> (k < length (timers s) \<longrightarrow>
        enabled (TimerFires k True) (step s Disconnect)
        \<and> sockets (step (step s Disconnect) (TimerFires k True))
            = sockets (step s Disconnect) @ [CONNECTING]
        \<and> websocket (step (step s Disconnect) (TimerFires k True)) = Some (length (sockets s)))"
  by (simp add: step_def disconnect_def connect_def closeSocket_def Let_def split: option.split)

theorem C2_disconnect_keeps_reconnect_witness:
  "timers (step (run (newService 1 ''a'') [Connect True, SocketOpen 0 2, SocketClose 0]) Disconnect)
     = [1000]
   \<and> enabled (TimerFires 0 True)
        (step (run (newService 1 ''a'') [Connect True, SocketOpen 0 2, SocketClose 0]) Disconnect)
   \<and> websocket (step (step (run (newService 1 ''a'') [Connect True, SocketOpen 0 2, SocketClose 0])
                     Disconnect) (TimerFires 0 True)) = Some 1"
proof -
  let ?s = "run (newService 1 ''a'') [Connect True, SocketOpen 0 2, SocketClose 0]"
  have t: "timers ?s = [1000]" and n: "length (sockets ?s) = 1"
    by (simp_all add: run_def step_def newService_def service_defs Let_def)
  from C2_disconnect_keeps_reconnect [of ?s 0] t n show ?thesis by simp
qed

subsection \<open>Bounded reconnection with linear backoff\<close>

lemma timeoutsSet_append:
  "timeoutsSet (es @ es') = timeoutsSet es @ timeoutsSet es'"
  by (induction es rule: timeoutsSet.induct) simp_all

text \<open>
  One step that is not a socket opening keeps the two constants, and either leaves the
  attempt counter and the timeouts set as they were or, below the maximum, counts one
  more attempt and sets one timeout of that attempt's number times the base delay.
\<close>

lemma step_without_open:
  assumes "\<not> isSocketOpen e" "maxReconnectAttempts s = 5" "reconnectDelay s = 1000"
  shows "maxReconnectAttempts (step s e) = 5 \<and> reconnectDelay (step s e) = 1000
     \<and> ((reconnectAttempts (step s e) = reconnectAttempts s
          \<and> timeoutsSet (log (step s e)) = timeoutsSet (log s))
        \<or> (reconnectAttempts s < 5 \<and> reconnectAttempts (step s e) = Suc (reconnectAttempts s)
          \<and> timeoutsSet (log (step s e))
               = timeoutsSet (log s) @ [Suc (reconnectAttempts s) * 1000]))"
  using assms
  by (cases e) (simp_all add: step_def service_defs Let_def timeoutsSet_append split: option.split)

lemma run_without_open:
  assumes "\<forall>e\<in>set evs. \<not> isSocketOpen e" "maxReconnectAttempts s = 5" "reconnectDelay s = 1000"
    "reconnectAttempts s \<le> 5"
  shows "\<exists>k. reconnectAttempts s \<le> k \<and> k \<le> 5 \<and> reconnectAttempts (run s evs) = k
     \<and> timeoutsSet (log (run s evs))
          = timeoutsSet (log s) @ map (\<lambda>n. n * 1000) [Suc (reconnectAttempts s)..<Suc k]"
  using assms
proof (induction evs arbitrary: s)
  case Nil
  then show ?case by (simp add: run_def)
next
  case (Cons e evs)
  have e: "\<not> isSocketOpen e" and evs: "\<forall>e\<in>set evs. \<not> isSocketOpen e"
    using Cons.prems(1) by simp_all
  note st = step_without_open [OF e Cons.prems(2,3)]
  let ?s = "step s e"
  have run: "run s (e # evs) = run ?s evs" by (simp add: run_def)
  from st consider
      (same) "reconnectAttempts ?s = reconnectAttempts s"
             "timeoutsSet (log ?s) = timeoutsSet (log s)"
    | (more) "reconnectAttempts s < 5" "reconnectAttempts ?s = Suc (reconnectAttempts s)"
             "timeoutsSet (log ?s) = timeoutsSet (log s) @ [Suc (reconnectAttempts s) * 1000]"
    by blast
  then show ?case
  proof cases
    case same
    from Cons.IH [of ?s] evs st same(1) Cons.prems(4)
    obtain k where "reconnectAttempts ?s \<le> k" "k \<le> 5" "reconnectAttempts (run ?s evs) = k"
      "timeoutsSet (log (run ?s evs))
         = timeoutsSet (log ?s) @ map (\<lambda>n. n * 1000) [Suc (reconnectAttempts ?s)..<Suc k]"
      by auto
    then show ?thesis unfolding run using same by auto
  next
    case more
    from Cons.IH [of ?s] evs st more(1,2)
    obtain k where k: "reconnectAttempts ?s \<le> k" "k \<le> 5" "reconnectAttempts (run ?s evs) = k"
      "timeoutsSet (log (run ?s evs))
         = timeoutsSet (log ?s) @ map (\<lambda>n. n * 1000) [Suc (reconnectAttempts ?s)..<Suc k]"
      by auto
    have "[Suc (reconnectAttempts s)..<Suc k]
            = Suc (reconnectAttempts s) # [Suc (Suc (reconnectAttempts s))..<Suc k]"
      using k(1) more(2) by (intro upt_conv_Cons) simp
    then show ?thesis unfolding run using k more by auto
  qed
qed

lemma constants_kept:
  "maxReconnectAttempts (run (newService now rnd) evs) = 5
   \<and> reconnectDelay (run (newService now rnd) evs) = 1000"
proof -
  have fire: "maxReconnectAttempts (fire e s) = maxReconnectAttempts s
              \<and> reconnectDelay (fire e s) = reconnectDelay s" for e s
    by (cases e) (simp_all add: service_defs Let_def split: option.split)
  have "maxReconnectAttempts (foldl step s evs) = maxReconnectAttempts s
        \<and> reconnectDelay (foldl step s evs) = reconnectDelay s" for s
    by (induction evs arbitrary: s) (simp_all add: step_def fire)
  then show ?thesis
    by (simp add: run_def newService_def)
qed

text \<open>
  C3: over every execution without a successful open, from a state whose attempt counter
  is 0 (a new service, or one whose socket has just opened), the timeouts set are the
  delays 1000, 2000, ... up to at most 5000, in this order: at most 5 reconnects are
  scheduled and the n-th is delayed by n times the base delay of 1000 ms. A close event
  below the maximum schedules the next attempt with that delay; at the maximum it
  schedules nothing. A socket opening resets the counter to 0. The constants 5 and 1000
  hold in every state a new service reaches.
\<close>

theorem C3_reconnect_bounded_backoff:
  "(maxReconnectAttempts s = 5 \<and> reconnectDelay s = 1000 \<and> reconnectAttempts s = 0
      \<and> (\<forall>e\<in>set evs. \<not> isSocketOpen e) \<longrightarrow>
      (\<exists>k\<le>5. timeoutsSet (log (run s evs))
                = timeoutsSet (log s) @ map (\<lambda>n. n * 1000) [1..<Suc k]))
   \<and> (maxReconnectAttempts s = 5 \<and> reconnectDelay s = 1000 \<and> enabled (SocketClose w) s
      \<and> reconnectAttempts s < 5 \<longrightarrow>
      reconnectAttempts (step s (SocketClose w)) = reconnectAttempts s + 1
      \<and> timers (step s (SocketClose w)) = timers s @ [(reconnectAttempts s + 1) * 1000])
   \<and> (maxReconnectAttempts s = 5 \<and> reconnectDelay s = 1000 \<and> enabled (SocketClose w) s
      \<and> 5 \<le> reconnectAttempts s \<longrightarrow>
      timers (step s (SocketClose w)) = timers s
      \<and> timeoutsSet (log (step s (SocketClose w))) = timeoutsSet (log s))
   \<and> (enabled (SocketOpen w now) s \<longrightarrow> reconnectAttempts (step s (SocketOpen w now)) = 0)
   \<and> maxReconnectAttempts (run (newService t rnd) evs) = 5
   \<and> reconnectDelay (run (newService t rnd) evs) = 1000"
proof -
  have bound: "maxReconnectAttempts s = 5 \<and> reconnectDelay s = 1000 \<and> reconnectAttempts s = 0
      \<and> (\<forall>e\<in>set evs. \<not> isSocketOpen e) \<longrightarrow>
      (\<exists>k\<le>5. timeoutsSet (log (run s evs))
                = timeoutsSet (log s) @ map (\<lambda>n. n * 1000) [1..<Suc k])"
  proof
    assume h: "maxReconnectAttempts s = 5 \<and> reconnectDelay s = 1000 \<and> reconnectAttempts s = 0
      \<and> (\<forall>e\<in>set evs. \<not> isSocketOpen e)"
    then have "\<exists>k. reconnectAttempts s \<le> k \<and> k \<le> 5 \<and> reconnectAttempts (run s evs) = k
       \<and> timeoutsSet (log (run s evs))
            = timeoutsSet (log s) @ map (\<lambda>n. n * 1000) [Suc (reconnectAttempts s)..<Suc k]"
      by (intro run_without_open) simp_all
    with h show "\<exists>k\<le>5. timeoutsSet (log (run s evs))
                = timeoutsSet (log s) @ map (\<lambda>n. n * 1000) [1..<Suc k]"
      by auto
  qed
  have close_below: "maxReconnectAttempts s = 5 \<and> reconnectDelay s = 1000
      \<and> enabled (SocketClose w) s \<and> reconnectAttempts s < 5 \<longrightarrow>
      reconnectAttempts (step s (SocketClose w)) = reconnectAttempts s + 1
      \<and> timers (step s (SocketClose w)) = timers s @ [(reconnectAttempts s + 1) * 1000]"
    by (simp add: step_def service_defs Let_def)
  have close_at: "maxReconnectAttempts s = 5 \<and> reconnectDelay s = 1000
      \<and> enabled (SocketClose w) s \<and> 5 \<le> reconnectAttempts s \<longrightarrow>
      timers (step s (SocketClose w)) = timers s
      \<and> timeoutsSet (log (step s (SocketClose w))) = timeoutsSet (log s)"
    by (simp add: step_def service_defs Let_def timeoutsSet_append)
  have reset: "enabled (SocketOpen w now) s \<longrightarrow> reconnectAttempts (step s (SocketOpen w now)) = 0"
    by (simp add: step_def service_defs Let_def split: option.split)
  from bound close_below close_at reset constants_kept [of t rnd evs]
  show ?thesis by blast
qed

theorem C3_reconnect_bounded_backoff_witness:
  "(\<exists>k\<le>5. timeoutsSet (log (run (run (newService 1 ''a'') [Connect True, SocketOpen 0 2])
       [SocketClose 0, TimerFires 0 True, SocketClose 1, TimerFires 0 True, SocketClose 2,
        TimerFires 0 True, SocketClose 3, TimerFires 0 True, SocketClose 4, TimerFires 0 True,
        SocketClose 5, SendSessionEnd 3]))
      = map (\<lambda>n. n * 1000) [1..<Suc k])
   \<and> timeoutsSet (log (run (run (newService 1 ''a'') [Connect True, SocketOpen 0 2])
       [SocketClose 0, TimerFires 0 True, SocketClose 1, TimerFires 0 True, SocketClose 2,
        TimerFires 0 True, SocketClose 3, TimerFires 0 True, SocketClose 4, TimerFires 0 True,
        SocketClose 5, SendSessionEnd 3]))
      = [1000, 2000, 3000, 4000, 5000]
   \<and> timers (step (run (newService 1 ''a'') [Connect True, SocketOpen 0 2]) (SocketClose 0)) = [1000]
   \<and> reconnectAttempts (step (run (newService 1 ''a'') [Connect True]) (SocketOpen 0 2)) = 0"
proof -
  let ?s = "run (newService 1 ''a'') [Connect True, SocketOpen 0 2]"
  let ?c = "run (newService 1 ''a'') [Connect True]"
  let ?evs = "[SocketClose 0, TimerFires 0 True, SocketClose 1, TimerFires 0 True, SocketClose 2,
        TimerFires 0 True, SocketClose 3, TimerFires 0 True, SocketClose 4, TimerFires 0 True,
        SocketClose 5, SendSessionEnd 3]"
  have s: "maxReconnectAttempts ?s = 5" "reconnectDelay ?s = 1000" "reconnectAttempts ?s = 0"
    "timeoutsSet (log ?s) = []" "timers ?s = []" "enabled (SocketClose 0) ?s"
    by (simp_all add: run_def step_def newService_def service_defs Let_def)
  have c: "enabled (SocketOpen 0 2) ?c"
    by (simp add: run_def step_def newService_def service_defs Let_def)
  have evs: "\<forall>e\<in>set ?evs. \<not> isSocketOpen e"
    by simp
  have all: "timeoutsSet (log (run ?s ?evs)) = [1000, 2000, 3000, 4000, 5000]"
    by (simp add: run_def step_def newService_def service_defs removeTimer_def Let_def)
  from C3_reconnect_bounded_backoff [of ?s ?evs 0 2 1 "''a''"] s evs
  have "\<exists>k\<le>5. timeoutsSet (log (run ?s ?evs)) = map (\<lambda>n. n * 1000) [1..<Suc k]"
    and "timers (step ?s (SocketClose 0)) = [1000]"
    by simp_all
  moreover from C3_reconnect_bounded_backoff [of ?c "[]" 0 2 1 "''a''"] c
  have "reconnectAttempts (step ?c (SocketOpen 0 2)) = 0"
    by simp
  ultimately show ?thesis using all by blast
qed

subsection \<open>The session id\<close>

lemma sessionId_fire: "sessionId (fire e s) = sessionId s"
  by (cases e) (simp_all add: service_defs Let_def split: option.split)

lemma sessionId_run: "sessionId (run s evs) = sessionId s"
  unfolding run_def by (induction evs arbitrary: s) (simp_all add: step_def sessionId_fire)

text \<open>
  C10: the session id is a string (never null) set by the constructor, and no method,
  socket event or reconnect timeout changes it: after any execution from any state
  \<^verbatim>\<open>getSessionId\<close> returns what it returned before, and each of \<^verbatim>\<open>connect\<close>,
  \<^verbatim>\<open>disconnect\<close>, \<^verbatim>\<open>sendSessionEnd\<close> and the senders leaves it unchanged whether it
  returns or throws.
\<close>

theorem C10_session_id_fixed:
  "getSessionId (newService now rnd) = Some (generateSessionId now rnd)
   \<and> getSessionId (run (newService now rnd) evs) = Some (generateSessionId now rnd)
   \<and> getSessionId (run s evs) = getSessionId s
   \<and> getSessionId (snd (connect urlAccepted s)) = getSessionId s
   \<and> getSessionId (disconnect s) = getSessionId s
   \<and> getSessionId (attemptReconnect s) = getSessionId s
   \<and> getSessionId (sendSessionEnd t s) = getSessionId s
   \<and> getSessionId (snd (sendAudioChunk t s)) = getSessionId s
   \<and> getSessionId (snd (sendRiskScore t s)) = getSessionId s
   \<and> getSessionId (snd (sendAudioChunkHTTP ok s)) = getSessionId s
   \<and> getSessionId (snd (sendRiskScoreHTTP ok s)) = getSessionId s"
proof -
  have new: "sessionId (newService now rnd) = Some (generateSessionId now rnd)"
    by (simp add: newService_def)
  have methods: "sessionId (snd (connect urlAccepted s)) = sessionId s"
    "sessionId (disconnect s) = sessionId s"
    "sessionId (attemptReconnect s) = sessionId s"
    "sessionId (sendSessionEnd t s) = sessionId s"
    "sessionId (snd (sendAudioChunk t s)) = sessionId s"
    "sessionId (snd (sendRiskScore t s)) = sessionId s"
    "sessionId (snd (sendAudioChunkHTTP ok s)) = sessionId s"
    "sessionId (snd (sendRiskScoreHTTP ok s)) = sessionId s"
    by (simp_all add: service_defs Let_def split: option.split)
  show ?thesis
    unfolding getSessionId_def by (simp add: new sessionId_run methods)
qed

theorem C10_session_id_fixed_witness:
  "getSessionId (newService 12 ''k3j9'') = Some ''ext_12_k3j9''
   \<and> getSessionId (run (newService 12 ''k3j9'')
        [Connect True, SocketOpen 0 13, SendAudioChunk 14, SendRiskScore 15, SocketClose 0,
         TimerFires 0 True, SendSessionEnd 16, Disconnect, SendRiskScore 17])
       = Some ''ext_12_k3j9''
   \<and> getSessionId (snd (sendRiskScore 17 (disconnect (newService 12 ''k3j9''))))
       = Some ''ext_12_k3j9''"
proof -
  have id: "generateSessionId 12 ''k3j9'' = ''ext_12_k3j9''"
    by (simp add: generateSessionId_def)
  from C10_session_id_fixed [of 12 "''k3j9''"
        "[Connect True, SocketOpen 0 13, SendAudioChunk 14, SendRiskScore 15, SocketClose 0,
          TimerFires 0 True, SendSessionEnd 16, Disconnect, SendRiskScore 17]"]
       C10_session_id_fixed [of 12 "''k3j9''" "[]" "disconnect (newService 12 ''k3j9'')" True 17]
       C10_session_id_fixed [of 12 "''k3j9''" "[]" "newService 12 ''k3j9''" True 17]
  show ?thesis
    by (simp only: id)
qed

end
